theory Spec2Isabelle
  imports Complex_Main "HOL-Library.Word" "HOL-Library.Sublist"
begin

unbundle bit_operations_syntax

section \<open>JavaScript values used by the crawler\<close>

text \<open>
  A JavaScript string is modelled as a \<^typ>\<open>string\<close>; \<open>charCodeAt\<close> is \<^term>\<open>of_char\<close>
  (code units below 256). Integral numbers (clock readings, counters, priorities)
  are \<^typ>\<open>int\<close>; numbers that come out of the jittered backoff are \<^typ>\<open>real\<close>, the
  idealisation of IEEE doubles. \<open>Date.now()\<close> is an explicit argument of every operation
  that reads the clock, and \<open>Math.random()\<close> an explicit argument \<open>rnd\<close>.
\<close>

text \<open>A JavaScript \<open>Set\<close> keeps its members in insertion order, without duplicates.\<close>

type_synonym 'a jsset = "'a list"

definition Set_has :: "'a jsset \<Rightarrow> 'a \<Rightarrow> bool" where
  "Set_has s x = (x \<in> set s)"

definition Set_add :: "'a \<Rightarrow> 'a jsset \<Rightarrow> 'a jsset" where
  "Set_add x s = (if x \<in> set s then s else s @ [x])"

definition Set_delete :: "'a \<Rightarrow> 'a jsset \<Rightarrow> 'a jsset" where
  "Set_delete x s = removeAll x s"

definition Set_size :: "'a jsset \<Rightarrow> int" where
  "Set_size s = int (length s)"

text \<open>\<open>new Set(array)\<close>: the members of the array, first occurrences in order.\<close>

definition Set_new :: "'a list \<Rightarrow> 'a jsset" where
  "Set_new xs = foldl (\<lambda>s x. Set_add x s) [] xs"

text \<open>\<open>Number.prototype.toString(radix)\<close> on a non-negative integer.\<close>

definition digitChar :: "nat \<Rightarrow> char" where
  "digitChar d = (''0123456789abcdefghijklmnopqrstuvwxyz'' ! d)"

function toStringRadix :: "int \<Rightarrow> int \<Rightarrow> string" where
  "toStringRadix r n =
     (if r < 2 \<or> n < r then [digitChar (nat n)]
      else toStringRadix r (n div r) @ [digitChar (nat (n mod r))])"
  by pat_completeness auto
termination
proof (relation "measure (\<lambda>(r, n). nat n)")
  show "wf (measure (\<lambda>(r, n). nat n))"
    by simp
next
  fix r n :: int
  assume "\<not> (r < 2 \<or> n < r)"
  then have "2 \<le> r" and "r \<le> n"
    by simp_all
  then have "n div r < n"
    by (simp add: int_div_less_self)
  moreover have "0 < n"
    using \<open>2 \<le> r\<close> \<open>r \<le> n\<close> by simp
  ultimately show "((r, n div r), r, n) \<in> measure (\<lambda>(r, n). nat n)"
    by simp
qed

declare toStringRadix.simps [simp del]

text \<open>The decimal rendering of an integer inside a template literal.\<close>

definition numToString :: "int \<Rightarrow> string" where
  "numToString n =
     (if n < 0 then CHR ''-'' # toStringRadix 10 (- n) else toStringRadix 10 n)"

section \<open>queueManager.ts: the data model\<close>

datatype task_type =
    Dashboard | CourseList | Announcements | Assignments | Discussions | Pages
  | Files | Quizzes | Modules | Grades | People | Syllabus

fun typeName :: "task_type \<Rightarrow> string" where
  "typeName Dashboard = ''dashboard''"
| "typeName CourseList = ''course-list''"
| "typeName Announcements = ''announcements''"
| "typeName Assignments = ''assignments''"
| "typeName Discussions = ''discussions''"
| "typeName Pages = ''pages''"
| "typeName Files = ''files''"
| "typeName Quizzes = ''quizzes''"
| "typeName Modules = ''modules''"
| "typeName Grades = ''grades''"
| "typeName People = ''people''"
| "typeName Syllabus = ''syllabus''"

text \<open>
  \<open>interface CrawlTask\<close>. The fields \<open>id\<close>, \<open>type\<close> and \<open>error\<close> are \<open>task_id\<close>,
  \<open>task_type\<close> and \<open>task_error\<close> here; \<open>metadata\<close> is opaque.
\<close>

record CrawlTask =
  task_id :: string
  task_type :: task_type
  url :: string
  courseId :: "string option"
  priority :: int
  retryCount :: int
  maxRetries :: int
  createdAt :: int
  scheduledFor :: real
  lastAttempt :: "int option"
  task_error :: "string option"
  metadata :: "string option"

text \<open>\<open>interface ConcurrencyConfig\<close>; its \<open>maxRetries\<close> is \<open>cfgMaxRetries\<close>.\<close>

record ConcurrencyConfig =
  maxConcurrentTasks :: int
  maxConcurrentGhostTabs :: int
  taskTimeoutMs :: int
  retryDelayMs :: real
  cfgMaxRetries :: int

definition defaultConcurrencyConfig :: ConcurrencyConfig where
  "defaultConcurrencyConfig =
     \<lparr>maxConcurrentTasks = 4, maxConcurrentGhostTabs = 2, taskTimeoutMs = 30000,
      retryDelayMs = 1000, cfgMaxRetries = 3\<rparr>"

text \<open>The entries of the \<open>recentErrors\<close> list that \<open>executeTask\<close> keeps in storage.\<close>

record RecentError =
  re_id :: string
  re_type :: task_type
  re_url :: string
  re_error :: "string option"
  re_when :: int

text \<open>The \<open>queueStats\<close> object written by \<open>saveQueue\<close>.\<close>

record QueueStatsStored =
  st_running :: "string list"
  st_completed :: "string list"
  st_failed :: "string list"
  st_lastUpdated :: int

text \<open>
  The keys of \<open>chrome.storage.local\<close> that the queue manager reads and writes; a key that
  was never written is \<open>None\<close>. Reads and writes of the store are taken to succeed.
\<close>

record Storage =
  crawlQueue :: "CrawlTask list option"
  queueStats :: "QueueStatsStored option"
  recentErrors :: "RecentError list option"

definition emptyStorage :: Storage where
  "emptyStorage = \<lparr>crawlQueue = None, queueStats = None, recentErrors = None\<rparr>"

text \<open>The fields of \<open>class QueueManager\<close>, together with the store it persists to.\<close>

record QueueManager =
  queue :: "CrawlTask list"
  running :: "string jsset"
  completed :: "string jsset"
  failed :: "string jsset"
  config :: ConcurrencyConfig
  isProcessing :: bool
  store :: Storage

section \<open>queueManager.ts: utility methods\<close>

text \<open>
  \<open>simpleHash\<close>: \<open>hash = ((hash << 5) - hash) + char; hash = hash & hash\<close>. The shift and
  the \<open>&\<close> work on 32-bit integers and the subtraction and addition between them are
  exact, so one round is the same arithmetic on a 32-bit word; \<open>Math.abs\<close> reads the
  word as a signed integer.
\<close>

definition hashStep :: "32 word \<Rightarrow> char \<Rightarrow> 32 word" where
  "hashStep hash c = (push_bit 5 hash - hash) + of_nat (of_char c)"

definition simpleHash :: "string \<Rightarrow> string" where
  "simpleHash str = toStringRadix 36 \<bar>sint (foldl hashStep 0 str)\<bar>"

text \<open>\<open>generateTaskId\<close>; \<open>timestamp\<close> is the reading of \<open>Date.now()\<close>.\<close>

definition generateTaskId :: "task_type \<Rightarrow> int \<Rightarrow> string \<Rightarrow> string" where
  "generateTaskId ty timestamp u =
     typeName ty @ ''_'' @ numToString timestamp @ ''_'' @ simpleHash u"

text \<open>
  \<open>calculateRetryDelay\<close>: \<open>Math.pow(2, retryCount - 1)\<close> is \<open>2 powi (retryCount - 1)\<close>,
  \<open>rnd\<close> is the value of \<open>Math.random()\<close>, in \<open>[0, 1)\<close>.
\<close>

definition calculateRetryDelay :: "ConcurrencyConfig \<Rightarrow> real \<Rightarrow> int \<Rightarrow> real" where
  "calculateRetryDelay cfg rnd n =
     (let baseDelay = retryDelayMs cfg;
          exponentialDelay = baseDelay * (2 powi (n - 1));
          jitter = rnd * 0.3 * exponentialDelay
      in min (exponentialDelay + jitter) 30000)"

section \<open>queueManager.ts: persistence\<close>

definition saveQueue :: "int \<Rightarrow> QueueManager \<Rightarrow> QueueManager" where
  "saveQueue now qm =
     qm\<lparr>store := (store qm)\<lparr>
        crawlQueue := Some (queue qm),
        queueStats := Some \<lparr>st_running = running qm, st_completed = completed qm,
                             st_failed = failed qm, st_lastUpdated = now\<rparr>\<rparr>\<rparr>"

definition loadQueue :: "QueueManager \<Rightarrow> QueueManager" where
  "loadQueue qm =
     (let qm1 = (case crawlQueue (store qm) of
                   Some q \<Rightarrow> qm\<lparr>queue := q\<rparr>
                 | None \<Rightarrow> qm)
      in case queueStats (store qm) of
           Some s \<Rightarrow> qm1\<lparr>running := Set_new (st_running s),
                         completed := Set_new (st_completed s),
                         failed := Set_new (st_failed s)\<rparr>
         | None \<Rightarrow> qm1)"

text \<open>The constructor: the field initialisers, then \<open>loadQueue\<close> from the given store.\<close>

definition newQueueManager :: "ConcurrencyConfig \<Rightarrow> Storage \<Rightarrow> QueueManager" where
  "newQueueManager cfg stor =
     loadQueue \<lparr>queue = [], running = [], completed = [], failed = [], config = cfg,
                isProcessing = False, store = stor\<rparr>"

section \<open>queueManager.ts: queue management\<close>

text \<open>\<open>Array.prototype.findIndex\<close> on the ids: the first index, or \<open>None\<close> for \<open>-1\<close>.\<close>

fun findIndex :: "string \<Rightarrow> CrawlTask list \<Rightarrow> nat option" where
  "findIndex i [] = None"
| "findIndex i (t # ts) =
     (if task_id t = i then Some 0 else map_option Suc (findIndex i ts))"

definition startProcessing :: "QueueManager \<Rightarrow> QueueManager" where
  "startProcessing qm = (if isProcessing qm then qm else qm\<lparr>isProcessing := True\<rparr>)"

text \<open>
  \<open>addTask\<close>: the argument carries the fields of the submission; its \<open>id\<close>,
  \<open>retryCount\<close> and \<open>createdAt\<close> are overwritten, as the object spread does.
\<close>

definition addTask :: "int \<Rightarrow> CrawlTask \<Rightarrow> QueueManager \<Rightarrow> string \<times> QueueManager" where
  "addTask now task qm =
     (let i = generateTaskId (task_type task) now (url task);
          crawlTask = task\<lparr>task_id := i, retryCount := 0, createdAt := now\<rparr>;
          qm1 = (case findIndex i (queue qm) of
                   Some existingIndex \<Rightarrow>
                     (if priority crawlTask > priority (queue qm ! existingIndex)
                      then qm\<lparr>queue := (queue qm)[existingIndex := crawlTask]\<rparr>
                      else qm)
                 | None \<Rightarrow> qm\<lparr>queue := queue qm @ [crawlTask]\<rparr>)
      in (i, startProcessing (saveQueue now qm1)))"

text \<open>\<open>removeTask\<close>: \<open>splice(index, 1)\<close> at the first index with the id, then a save.\<close>

definition removeTask :: "int \<Rightarrow> string \<Rightarrow> QueueManager \<Rightarrow> bool \<times> QueueManager" where
  "removeTask now taskId qm =
     (case findIndex taskId (queue qm) of
        Some index \<Rightarrow>
          (True, saveQueue now (qm\<lparr>queue := take index (queue qm) @ drop (Suc index) (queue qm)\<rparr>))
      | None \<Rightarrow> (False, qm))"

section \<open>queueManager.ts: queue processing\<close>

text \<open>
  What the \<open>try\<close> block of \<open>executeTask\<close> did: it ran to its end, or it threw (a failed
  fetch, an empty page, a parser or storage error) with the given message. The page
  loader, the parsers and the artifact store are collaborators outside this model.
\<close>

datatype exec_outcome = Succeeded | Threw string

text \<open>
  \<open>executeTask\<close> mutates the task object it was handed, which is the object in the
  queue array: the model writes the updated task back at every entry with its id.
\<close>

definition writeTask :: "CrawlTask \<Rightarrow> QueueManager \<Rightarrow> QueueManager" where
  "writeTask task qm =
     qm\<lparr>queue := map (\<lambda>t. if task_id t = task_id task then task else t) (queue qm)\<rparr>"

text \<open>The code before the first \<open>await\<close>: the task is marked as running.\<close>

definition executeTask_begin :: "int \<Rightarrow> CrawlTask \<Rightarrow> QueueManager \<Rightarrow> CrawlTask \<times> QueueManager" where
  "executeTask_begin now task qm =
     (let task1 = task\<lparr>lastAttempt := Some now\<rparr>
      in (task1, writeTask task1 (qm\<lparr>running := Set_add (task_id task) (running qm)\<rparr>)))"

text \<open>\<open>recent.unshift(entry); recent.slice(0, 50)\<close> on the stored \<open>recentErrors\<close>.\<close>

definition recordRecentError :: "RecentError \<Rightarrow> QueueManager \<Rightarrow> QueueManager" where
  "recordRecentError e qm =
     (let recent = (case recentErrors (store qm) of Some r \<Rightarrow> r | None \<Rightarrow> []);
          trimmed = take 50 (e # recent)
      in qm\<lparr>store := (store qm)\<lparr>recentErrors := Some trimmed\<rparr>\<rparr>)"

text \<open>
  The code after the \<open>try\<close> block has finished: the success path at its end, or the
  \<open>catch\<close> block; then the final \<open>saveQueue\<close>. \<open>now\<close> is the clock at that point.
\<close>

definition executeTask_end ::
  "exec_outcome \<Rightarrow> int \<Rightarrow> real \<Rightarrow> CrawlTask \<Rightarrow> QueueManager \<Rightarrow> QueueManager" where
  "executeTask_end outcome now rnd task qm =
     (case outcome of
        Succeeded \<Rightarrow>
          (let qm1 = qm\<lparr>completed := Set_add (task_id task) (completed qm),
                          running := Set_delete (task_id task) (running qm)\<rparr>;
               qm2 = snd (removeTask now (task_id task) qm1)
           in saveQueue now qm2)
      | Threw errorMessage \<Rightarrow>
          (let task1 = task\<lparr>task_error := Some errorMessage, retryCount := retryCount task + 1\<rparr>;
               qm1 = writeTask task1 qm
           in if retryCount task1 \<ge> cfgMaxRetries (config qm1) then
                (let qm2 = qm1\<lparr>failed := Set_add (task_id task1) (failed qm1),
                                 running := Set_delete (task_id task1) (running qm1)\<rparr>;
                     qm3 = snd (removeTask now (task_id task1) qm2);
                     qm4 = recordRecentError
                             \<lparr>re_id = task_id task1, re_type = task_type task1,
                              re_url = url task1, re_error = task_error task1,
                              re_when = now\<rparr> qm3
                 in saveQueue now qm4)
              else
                (let delay = calculateRetryDelay (config qm1) rnd (retryCount task1);
                     task2 = task1\<lparr>scheduledFor := real_of_int now + delay\<rparr>;
                     qm2 = writeTask task2 qm1;
                     qm3 = qm2\<lparr>running := Set_delete (task_id task2) (running qm2)\<rparr>
                 in saveQueue now qm3)))"

text \<open>
  What the executions of one pass of \<open>processQueue\<close> meet: for each task the outcome
  of its \<open>try\<close> block, the clock when that is known and the random number drawn for
  the backoff; and the clock at each step of the loop over the queue.
\<close>

record ExecEnv =
  outcomeOf :: "CrawlTask \<Rightarrow> exec_outcome"
  finishedAt :: "CrawlTask \<Rightarrow> int"
  randomOf :: "CrawlTask \<Rightarrow> real"
  clockAt :: "nat \<Rightarrow> int"

definition executeTask :: "ExecEnv \<Rightarrow> int \<Rightarrow> CrawlTask \<Rightarrow> QueueManager \<Rightarrow> QueueManager" where
  "executeTask env now task qm =
     (let (task1, qm1) = executeTask_begin now task qm
      in executeTask_end (outcomeOf env task) (finishedAt env task) (randomOf env task) task1 qm1)"

text \<open>
  The comparator of \<open>processQueue\<close>: \<open>taskBefore a b\<close> when it is negative for \<open>(a, b)\<close>,
  that is when \<open>a\<close> is scheduled earlier than \<open>b\<close>, or for the same time with a higher
  priority. \<open>Array.prototype.sort\<close> is stable; so is this insertion sort, which puts a
  task behind the tasks that come before it and in front of all others.
\<close>

definition taskBefore :: "CrawlTask \<Rightarrow> CrawlTask \<Rightarrow> bool" where
  "taskBefore a b =
     (if scheduledFor a \<noteq> scheduledFor b then scheduledFor a < scheduledFor b
      else priority b < priority a)"

fun insertTask :: "CrawlTask \<Rightarrow> CrawlTask list \<Rightarrow> CrawlTask list" where
  "insertTask a [] = [a]"
| "insertTask a (b # bs) = (if taskBefore b a then b # insertTask a bs else a # b # bs)"

definition sortQueue :: "CrawlTask list \<Rightarrow> CrawlTask list" where
  "sortQueue q = foldr insertTask q []"

text \<open>The test that lets \<open>processQueue\<close> start a task.\<close>

definition taskReady :: "int \<Rightarrow> QueueManager \<Rightarrow> CrawlTask \<Rightarrow> bool" where
  "taskReady now qm task =
     (scheduledFor task \<le> real_of_int now \<and> \<not> Set_has (running qm) (task_id task))"

definition atCapacity :: "QueueManager \<Rightarrow> bool" where
  "atCapacity qm = (Set_size (running qm) \<ge> maxConcurrentTasks (config qm))"

lemma length_writeTask: "length (queue (writeTask t qm)) = length (queue qm)"
  by (simp add: writeTask_def)

lemma length_removeTask: "length (queue (snd (removeTask now i qm))) \<le> length (queue qm)"
  by (auto simp add: removeTask_def saveQueue_def split: option.splits)

lemma queue_saveQueue: "queue (saveQueue now qm) = queue qm"
  by (simp add: saveQueue_def)

lemma queue_recordRecentError: "queue (recordRecentError e qm) = queue qm"
  by (simp add: recordRecentError_def Let_def)

lemma length_executeTask_end:
  "length (queue (executeTask_end outcome now rnd task qm)) \<le> length (queue qm)"
proof (cases outcome)
  case Succeeded
  have "length (queue (snd (removeTask now (task_id task)
          (qm\<lparr>completed := Set_add (task_id task) (completed qm),
               running := Set_delete (task_id task) (running qm)\<rparr>)))) \<le> length (queue qm)"
    using length_removeTask [of now "task_id task"
        "qm\<lparr>completed := Set_add (task_id task) (completed qm),
            running := Set_delete (task_id task) (running qm)\<rparr>"]
    by simp
  with Succeeded show ?thesis
    by (simp add: executeTask_end_def Let_def queue_saveQueue)
next
  case (Threw msg)
  let ?t1 = "task\<lparr>task_error := Some msg, retryCount := retryCount task + 1\<rparr>"
  let ?q1 = "writeTask ?t1 qm"
  let ?q2 = "?q1\<lparr>failed := Set_add (task_id ?t1) (failed ?q1),
                   running := Set_delete (task_id ?t1) (running ?q1)\<rparr>"
  have "length (queue (snd (removeTask now (task_id ?t1) ?q2))) \<le> length (queue ?q2)"
    by (rule length_removeTask)
  also have "length (queue ?q2) = length (queue qm)"
    by (simp add: writeTask_def)
  finally have perm: "length (queue (snd (removeTask now (task_id ?t1) ?q2))) \<le> length (queue qm)" .
  show ?thesis
    using Threw perm
    by (simp add: executeTask_end_def Let_def queue_saveQueue queue_recordRecentError
        length_writeTask)
qed

lemma length_executeTask:
  "length (queue (executeTask env now task qm)) \<le> length (queue qm)"
proof -
  have "length (queue (snd (executeTask_begin now task qm))) = length (queue qm)"
    by (simp add: executeTask_begin_def Let_def writeTask_def)
  then show ?thesis
    using length_executeTask_end
      [of "outcomeOf env task" "finishedAt env task" "randomOf env task"
          "fst (executeTask_begin now task qm)" "snd (executeTask_begin now task qm)"]
    by (simp add: executeTask_def split_beta)
qed

text \<open>
  The \<open>for (const task of this.queue)\<close> loop of \<open>processQueue\<close>. The array iterator reads
  the array by index and looks at its current length at every step, while the
  executions it awaits remove entries; \<open>i\<close> is the iterator's index.
\<close>

function processQueue_loop :: "ExecEnv \<Rightarrow> nat \<Rightarrow> QueueManager \<Rightarrow> QueueManager" where
  "processQueue_loop env i qm =
     (if i \<ge> length (queue qm) then qm
      else if atCapacity qm then qm
      else if taskReady (clockAt env i) qm (queue qm ! i)
           then processQueue_loop env (Suc i) (executeTask env (clockAt env i) (queue qm ! i) qm)
           else processQueue_loop env (Suc i) qm)"
  by pat_completeness auto
termination
proof (relation "measure (\<lambda>(env, i, qm). length (queue qm) - i)")
  show "wf (measure (\<lambda>(env, i, qm). length (queue qm) - i))"
    by simp
next
  fix env :: ExecEnv and i :: nat and qm :: QueueManager
  assume "\<not> length (queue qm) \<le> i"
  then show "((env, Suc i, executeTask env (clockAt env i) (queue qm ! i) qm), env, i, qm)
      \<in> measure (\<lambda>(env, i, qm). length (queue qm) - i)"
    using length_executeTask [of env "clockAt env i" "queue qm ! i" qm] by simp
next
  fix env :: ExecEnv and i :: nat and qm :: QueueManager
  assume "\<not> length (queue qm) \<le> i"
  then show "((env, Suc i, qm), env, i, qm) \<in> measure (\<lambda>(env, i, qm). length (queue qm) - i)"
    by simp
qed

definition processQueue :: "ExecEnv \<Rightarrow> QueueManager \<Rightarrow> QueueManager" where
  "processQueue env qm =
     (if atCapacity qm then qm
      else processQueue_loop env 0 (qm\<lparr>queue := sortQueue (queue qm)\<rparr>))"

section \<open>incrementalSync.ts: the data model\<close>

text \<open>
  \<open>interface CacheEntry\<close>. Its \<open>url\<close> is \<open>ce_url\<close>; of its \<open>metadata\<close> the model keeps
  \<open>contentLength\<close> (the \<open>responseHeaders\<close> repeat \<open>etag\<close> and \<open>lastModified\<close>).
\<close>

record CacheEntry =
  ce_url :: string
  etag :: "string option"
  lastModified :: "string option"
  contentHash :: string
  lastChecked :: int
  lastUpdated :: int
  hitCount :: int
  contentLength :: int

datatype change_type = Added | Modified | Removed

text \<open>\<open>interface ChangeSignal\<close>, its \<open>metadata\<close> object flattened into four fields.\<close>

record ChangeSignal =
  cs_url :: string
  changeType :: change_type
  detectedAt :: int
  previousHash :: "string option"
  currentHash :: string
  oldETag :: "string option"
  newETag :: "string option"
  oldLastModified :: "string option"
  newLastModified :: "string option"

record Timing =
  cacheCheck :: int
  download :: int
  processing :: int
  total :: int

text \<open>\<open>interface SyncResult\<close>.\<close>

record SyncResult =
  sr_url :: string
  changed :: bool
  cached :: bool
  sr_etag :: "string option"
  sr_lastModified :: "string option"
  sr_contentHash :: string
  timing :: Timing

text \<open>\<open>interface IncrementalSyncConfig\<close>, and the defaults of the constructor.\<close>

record IncrementalSyncConfig =
  enableLogging :: bool
  maxCacheAge :: int
  maxCacheEntries :: int
  enableETagCaching :: bool
  enableLastModified :: bool
  enableContentHashing :: bool
  forceRefreshInterval :: int

definition defaultSyncConfig :: IncrementalSyncConfig where
  "defaultSyncConfig =
     \<lparr>enableLogging = True, maxCacheAge = 24 * 60 * 60 * 1000, maxCacheEntries = 10000,
      enableETagCaching = True, enableLastModified = True, enableContentHashing = True,
      forceRefreshInterval = 7 * 24 * 60 * 60 * 1000\<rparr>"

text \<open>
  A JavaScript \<open>Map\<close> with string keys: the entries in insertion order, one per key.
  \<open>set\<close> on a key that is present keeps its place.
\<close>

type_synonym 'v jsmap = "(string \<times> 'v) list"

definition Map_get :: "'v jsmap \<Rightarrow> string \<Rightarrow> 'v option" where
  "Map_get m k = map_of m k"

fun Map_set :: "string \<Rightarrow> 'v \<Rightarrow> 'v jsmap \<Rightarrow> 'v jsmap" where
  "Map_set k v [] = [(k, v)]"
| "Map_set k v ((k', v') # m) = (if k' = k then (k, v) # m else (k', v') # Map_set k v m)"

definition Map_delete :: "string \<Rightarrow> 'v jsmap \<Rightarrow> 'v jsmap" where
  "Map_delete k m = filter (\<lambda>(k', v). k' \<noteq> k) m"

definition Map_size :: "'v jsmap \<Rightarrow> int" where
  "Map_size m = int (length m)"

text \<open>
  The fields of \<open>class IncrementalSync\<close>, and the two keys of \<open>chrome.storage.local\<close> it
  writes: \<open>incrementalSyncCache\<close> (the array of cache entries) and \<open>changeSignals\<close>.
\<close>

record IncrementalSync =
  sync_config :: IncrementalSyncConfig
  cache :: "CacheEntry jsmap"
  changeSignals :: "ChangeSignal list jsmap"
  storedCache :: "CacheEntry list option"
  storedSignals :: "ChangeSignal list jsmap option"

text \<open>
  What \<open>fetch(url, { headers })\<close> did: it rejected, or it resolved to a response with a
  status, the \<open>etag\<close> and \<open>last-modified\<close> headers (if present) and a body, which is
  \<open>None\<close> when \<open>response.text()\<close> rejects.
\<close>

datatype fetch_outcome =
    FetchRejected string
  | Response (status: int) (statusText: string) (etagHeader: "string option")
      (lastModifiedHeader: "string option") (responseText: "string option")

text \<open>What the \<open>catch\<close> block of \<open>syncUrl\<close> can receive.\<close>

datatype sync_error = NetworkFailure string | HttpFailure int string | BodyFailure

text \<open>
  The environment of one call of \<open>syncUrl\<close>: the network, the digest
  (\<open>TextEncoder\<close> and \<open>crypto.subtle.digest('SHA-256', ...)\<close> together: the bytes of the
  digest, or \<open>None\<close> when it throws), and the readings of \<open>Date.now()\<close> at each place
  where the method reads the clock.
\<close>

record SyncEnv =
  fetch :: "string \<Rightarrow> (string \<times> string) list \<Rightarrow> fetch_outcome"
  digest :: "string \<Rightarrow> nat list option"
  startTime :: int
  cacheStart :: int
  refreshNow :: int
  cacheEnd :: int
  touchTime :: int
  downloadStart :: int
  downloadEnd :: int
  processingStart :: int
  hashTime :: int
  entryTime :: int
  processingEnd :: int
  signalTime :: int
  endTime :: int

section \<open>incrementalSync.ts: content normalisation\<close>

text \<open>The character classes of the regular expressions: \<open>\d\<close>, \<open>\s\<close>, and \<open>[^&\s"]\<close>.\<close>

definition isDigit :: "char \<Rightarrow> bool" where
  "isDigit c = (48 \<le> (of_char c :: nat) \<and> (of_char c :: nat) \<le> 57)"

definition isSpace :: "char \<Rightarrow> bool" where
  "isSpace c = ((of_char c :: nat) \<in> {9, 10, 11, 12, 13, 32, 160})"

definition tokenChar :: "char \<Rightarrow> bool" where
  "tokenChar c = (c \<noteq> CHR ''&'' \<and> \<not> isSpace c \<and> c \<noteq> CHR 0x22)"

text \<open>The canonical form of a character under the \<open>i\<close> flag.\<close>

definition upperChar :: "char \<Rightarrow> char" where
  "upperChar c =
     (if 97 \<le> (of_char c :: nat) \<and> (of_char c :: nat) \<le> 122
      then char_of ((of_char c :: nat) - 32) else c)"

text \<open>
  \<open>/\d{4}-\d{2}-\d{2}T\d{2}:\d{2}:\d{2}/\<close> as a sequence of items, each a digit or a literal
  character, and the test that a string begins with a match.
\<close>

datatype pat_item = Digit | Lit char

definition timestampPattern :: "pat_item list" where
  "timestampPattern =
     [Digit, Digit, Digit, Digit, Lit (CHR ''-''), Digit, Digit, Lit (CHR ''-''), Digit, Digit,
      Lit (CHR ''T''), Digit, Digit, Lit (CHR '':''), Digit, Digit, Lit (CHR '':''), Digit, Digit]"

fun matchItem :: "pat_item \<Rightarrow> char \<Rightarrow> bool" where
  "matchItem Digit c = isDigit c"
| "matchItem (Lit l) c = (c = l)"

fun matchPattern :: "pat_item list \<Rightarrow> string \<Rightarrow> bool" where
  "matchPattern [] s = True"
| "matchPattern (p # ps) [] = False"
| "matchPattern (p # ps) (c # cs) = (matchItem p c \<and> matchPattern ps cs)"

text \<open>\<open>.replace(/\d{4}-\d{2}-\d{2}T\d{2}:\d{2}:\d{2}/g, 'TIMESTAMP')\<close>.\<close>

function replaceTimestamps :: "string \<Rightarrow> string" where
  "replaceTimestamps [] = []"
| "replaceTimestamps (c # cs) =
     (if matchPattern timestampPattern (c # cs)
      then ''TIMESTAMP'' @ replaceTimestamps (drop 19 (c # cs))
      else c # replaceTimestamps cs)"
  by pat_completeness auto
termination
  by (relation "measure length") auto

text \<open>
  \<open>.replace(/\d{13,}/g, 'TIMESTAMP')\<close>: a maximal run of digits is replaced when it has 13
  digits or more, and copied otherwise (no shorter part of it can match).
\<close>

function replaceLongDigits :: "string \<Rightarrow> string" where
  "replaceLongDigits [] = []"
| "replaceLongDigits (c # cs) =
     (if isDigit c
      then (if length (takeWhile isDigit (c # cs)) \<ge> 13 then ''TIMESTAMP''
            else takeWhile isDigit (c # cs))
           @ replaceLongDigits (dropWhile isDigit cs)
      else c # replaceLongDigits cs)"
  by pat_completeness auto
termination
  by (relation "measure length") (auto simp: length_dropWhile_le less_Suc_eq_le)

text \<open>
  A keyword matched without regard to case: the rest of the string after it, if the
  string begins with it.
\<close>

fun matchKeyword :: "string \<Rightarrow> string \<Rightarrow> string option" where
  "matchKeyword [] s = Some s"
| "matchKeyword (k # ks) [] = None"
| "matchKeyword (k # ks) (c # cs) =
     (if upperChar c = upperChar k then matchKeyword ks cs else None)"

text \<open>
  A match of \<open>/w1[_-]w2/i\<close> at the head of the string: what is left after it.
\<close>

definition matchKeywords :: "string \<Rightarrow> string \<Rightarrow> string \<Rightarrow> string option" where
  "matchKeywords w1 w2 s =
     (case matchKeyword w1 s of
        None \<Rightarrow> None
      | Some r1 \<Rightarrow>
          (case r1 of
             [] \<Rightarrow> None
           | c # r2 \<Rightarrow> if c = CHR ''_'' \<or> c = CHR ''-'' then matchKeyword w2 r2 else None))"

text \<open>
  A match of \<open>/w1[_-]w2[^&\s"]*/i\<close> at the head of the string: what is left after it.
  The last part of the pattern is greedy and nothing follows it, so it takes every
  character up to the first \<open>&\<close>, white space or double quote.
\<close>

definition matchToken :: "string \<Rightarrow> string \<Rightarrow> string \<Rightarrow> string option" where
  "matchToken w1 w2 s = map_option (dropWhile tokenChar) (matchKeywords w1 w2 s)"

lemma matchKeyword_length: "matchKeyword k s = Some r \<Longrightarrow> length r \<le> length s"
  by (induction k s rule: matchKeyword.induct) (auto split: if_splits)

lemma matchKeywords_length: "matchKeywords w1 w2 s = Some r \<Longrightarrow> length r < length s"
proof -
  assume m: "matchKeywords w1 w2 s = Some r"
  then obtain r1 where r1: "matchKeyword w1 s = Some r1"
    by (auto simp: matchKeywords_def split: option.splits)
  with m obtain c r2 where r2: "r1 = c # r2"
    by (cases r1) (auto simp: matchKeywords_def)
  with m r1 have r3: "matchKeyword w2 r2 = Some r"
    by (auto simp: matchKeywords_def split: if_splits)
  have "length r \<le> length r2"
    by (rule matchKeyword_length [OF r3])
  also have "\<dots> < length r1"
    using r2 by simp
  also have "\<dots> \<le> length s"
    by (rule matchKeyword_length [OF r1])
  finally show ?thesis .
qed

lemma matchToken_length: "matchToken w1 w2 s = Some r \<Longrightarrow> length r < length s"
proof -
  assume "matchToken w1 w2 s = Some r"
  then obtain r3 where r3: "matchKeywords w1 w2 s = Some r3" and r: "r = dropWhile tokenChar r3"
    by (auto simp: matchToken_def)
  have "length r \<le> length r3"
    unfolding r by (rule length_dropWhile_le)
  also have "\<dots> < length s"
    by (rule matchKeywords_length [OF r3])
  finally show ?thesis .
qed

text \<open>\<open>.replace(/w1[_-]w2[^&\s"]*/gi, placeholder)\<close>.\<close>

function replaceToken :: "string \<Rightarrow> string \<Rightarrow> string \<Rightarrow> string \<Rightarrow> string" where
  "replaceToken w1 w2 placeholder [] = []"
| "replaceToken w1 w2 placeholder (c # cs) =
     (case matchToken w1 w2 (c # cs) of
        Some r \<Rightarrow> placeholder @ replaceToken w1 w2 placeholder r
      | None \<Rightarrow> c # replaceToken w1 w2 placeholder cs)"
  by pat_completeness auto
termination
proof (relation "measure (\<lambda>(w1, w2, p, s). length s)")
  show "wf (measure (\<lambda>(w1, w2, p, s). length s))"
    by simp
next
  fix w1 w2 placeholder :: string and c :: char and cs r :: string
  assume "matchToken w1 w2 (c # cs) = Some r"
  from matchToken_length [OF this]
  show "((w1, w2, placeholder, r), w1, w2, placeholder, c # cs)
          \<in> measure (\<lambda>(w1, w2, p, s). length s)"
    by simp
next
  fix w1 w2 placeholder :: string and c :: char and cs :: string
  show "((w1, w2, placeholder, cs), w1, w2, placeholder, c # cs)
          \<in> measure (\<lambda>(w1, w2, p, s). length s)"
    by simp
qed

text \<open>Whether a string holds \<open>n\<close> digits in a row; \<open>run\<close> counts the digits just read.\<close>

fun hasDigitRun :: "nat \<Rightarrow> nat \<Rightarrow> string \<Rightarrow> bool" where
  "hasDigitRun n run [] = (n \<le> run)"
| "hasDigitRun n run (c # cs) =
     (n \<le> run \<or> (if isDigit c then hasDigitRun n (Suc run) cs else hasDigitRun n 0 cs))"

text \<open>
  A match of \<open>/id="[^"]*\d{10,}[^"]*"/\<close> at the head of the string: what is left after
  it. The value runs to the next double quote, which must exist, and must hold ten
  digits in a row.
\<close>

definition notQuote :: "char \<Rightarrow> bool" where
  "notQuote c = (c \<noteq> CHR 0x22)"

definition matchDynamicId :: "string \<Rightarrow> string option" where
  "matchDynamicId s =
     (if take 4 s = [CHR ''i'', CHR ''d'', CHR ''='', CHR 0x22]
      then (let v = takeWhile notQuote (drop 4 s);
                after = dropWhile notQuote (drop 4 s)
            in if after \<noteq> [] \<and> hasDigitRun 10 0 v then Some (tl after) else None)
      else None)"

lemma matchDynamicId_length: "matchDynamicId s = Some r \<Longrightarrow> length r < length s"
proof -
  assume m: "matchDynamicId s = Some r"
  then have pre: "take 4 s = [CHR ''i'', CHR ''d'', CHR ''='', CHR 0x22]"
    and r: "r = tl (dropWhile notQuote (drop 4 s))"
    by (auto simp: matchDynamicId_def Let_def split: if_splits)
  have "length (take 4 s) = 4"
    unfolding pre by simp
  then have long: "4 \<le> length s"
    by simp
  have "length (tl (dropWhile notQuote (drop 4 s))) \<le> length (dropWhile notQuote (drop 4 s))"
    by simp
  also have "\<dots> \<le> length (drop 4 s)"
    by (rule length_dropWhile_le)
  finally have "length r \<le> length s - 4"
    unfolding r by simp
  with long show ?thesis
    by arith
qed

text \<open>\<open>.replace(/id="[^"]*\d{10,}[^"]*"/g, 'id="DYNAMIC_ID"')\<close>.\<close>

function replaceDynamicIds :: "string \<Rightarrow> string" where
  "replaceDynamicIds [] = []"
| "replaceDynamicIds (c # cs) =
     (case matchDynamicId (c # cs) of
        Some r \<Rightarrow> [CHR ''i'', CHR ''d'', CHR ''='', CHR 0x22] @ ''DYNAMIC_ID'' @ [CHR 0x22]
                  @ replaceDynamicIds r
      | None \<Rightarrow> c # replaceDynamicIds cs)"
  by pat_completeness auto
termination
proof (relation "measure length")
  show "wf (measure length)"
    by simp
next
  fix c :: char and cs r :: string
  assume "matchDynamicId (c # cs) = Some r"
  from matchDynamicId_length [OF this] show "(r, c # cs) \<in> measure length"
    by simp
next
  fix c :: char and cs :: string
  show "(cs, c # cs) \<in> measure length"
    by simp
qed

text \<open>\<open>.replace(/\s+/g, ' ')\<close> and \<open>.trim()\<close>.\<close>

function collapseSpaces :: "string \<Rightarrow> string" where
  "collapseSpaces [] = []"
| "collapseSpaces (c # cs) =
     (if isSpace c then CHR '' '' # collapseSpaces (dropWhile isSpace cs)
      else c # collapseSpaces cs)"
  by pat_completeness auto
termination
  by (relation "measure length") (auto simp: length_dropWhile_le less_Suc_eq_le)

definition trim :: "string \<Rightarrow> string" where
  "trim s = rev (dropWhile isSpace (rev (dropWhile isSpace s)))"

definition normalizeContent :: "string \<Rightarrow> string" where
  "normalizeContent content =
     trim (collapseSpaces (replaceDynamicIds
       (replaceToken ''authenticity'' ''token'' ''AUTH_TOKEN''
         (replaceToken ''csrf'' ''token'' ''CSRF_TOKEN''
           (replaceToken ''session'' ''id'' ''SESSION_ID''
             (replaceLongDigits (replaceTimestamps content)))))))"

section \<open>incrementalSync.ts: the cache\<close>

text \<open>Truthiness of an optional string: present and not empty.\<close>

definition truthy :: "string option \<Rightarrow> bool" where
  "truthy v = (case v of None \<Rightarrow> False | Some s \<Rightarrow> s \<noteq> [])"

text \<open>\<open>value || undefined\<close> on an optional string.\<close>

definition orUndefined :: "string option \<Rightarrow> string option" where
  "orUndefined v = (if truthy v then v else None)"

definition getCacheEntry :: "IncrementalSync \<Rightarrow> string \<Rightarrow> CacheEntry option" where
  "getCacheEntry st u = Map_get (cache st) u"

text \<open>\<open>shouldRefreshUrl\<close>; \<open>now\<close> is its reading of \<open>Date.now()\<close>.\<close>

definition shouldRefreshUrl ::
  "IncrementalSyncConfig \<Rightarrow> int \<Rightarrow> string \<Rightarrow> CacheEntry option \<Rightarrow> bool \<Rightarrow> bool" where
  "shouldRefreshUrl cfg now u cacheEntry forceRefresh =
     (if forceRefresh then True
      else case cacheEntry of
             None \<Rightarrow> True
           | Some e \<Rightarrow>
               (let age = now - lastUpdated e
                in if age > maxCacheAge cfg then True
                   else if age > forceRefreshInterval cfg then True
                   else False))"

definition saveCache :: "IncrementalSync \<Rightarrow> IncrementalSync" where
  "saveCache st = st\<lparr>storedCache := Some (map snd (cache st))\<rparr>"

definition saveChangeSignals :: "IncrementalSync \<Rightarrow> IncrementalSync" where
  "saveChangeSignals st = st\<lparr>storedSignals := Some (changeSignals st)\<rparr>"

text \<open>\<open>entries.slice(0, k)\<close>: a negative \<open>k\<close> counts from the end of the array.\<close>

definition sliceFromStart :: "'a list \<Rightarrow> int \<Rightarrow> 'a list" where
  "sliceFromStart xs k = (if k < 0 then take (nat (int (length xs) + k)) xs else take (nat k) xs)"

text \<open>
  \<open>cleanupCache\<close>: the entries in the order of \<open>lastChecked\<close> (a stable sort), the first
  \<open>length - maxCacheEntries + 1000\<close> of them deleted, and a save.
\<close>

definition cleanupCache :: "IncrementalSync \<Rightarrow> IncrementalSync" where
  "cleanupCache st =
     (let entries = sort_key (\<lambda>(u, e). lastChecked e) (cache st);
          toRemove = sliceFromStart entries
                       (int (length entries) - maxCacheEntries (sync_config st) + 1000)
      in saveCache (st\<lparr>cache := foldl (\<lambda>m (u, e). Map_delete u m) (cache st) toRemove\<rparr>))"

definition updateCacheEntry :: "string \<Rightarrow> CacheEntry \<Rightarrow> IncrementalSync \<Rightarrow> IncrementalSync" where
  "updateCacheEntry u entry st =
     (let st1 = st\<lparr>cache := Map_set u entry (cache st)\<rparr>;
          st2 = (if Map_size (cache st1) > maxCacheEntries (sync_config st1)
                 then cleanupCache st1 else st1)
      in saveCache st2)"

section \<open>incrementalSync.ts: fetching and fingerprinting\<close>

text \<open>The object that \<open>conditionalFetch\<close> resolves to.\<close>

record FetchResult =
  content :: string
  fr_etag :: "string option"
  fr_lastModified :: "string option"
  notModified :: bool

text \<open>The request headers that \<open>conditionalFetch\<close> builds from the cache entry.\<close>

definition conditionalHeaders ::
  "IncrementalSyncConfig \<Rightarrow> CacheEntry option \<Rightarrow> (string \<times> string) list" where
  "conditionalHeaders cfg cacheEntry =
     (case cacheEntry of
        None \<Rightarrow> []
      | Some e \<Rightarrow>
          (case etag e of
             Some t \<Rightarrow> if enableETagCaching cfg \<and> t \<noteq> [] then [(''If-None-Match'', t)] else []
           | None \<Rightarrow> [])
          @ (case lastModified e of
               Some t \<Rightarrow>
                 if enableLastModified cfg \<and> t \<noteq> [] then [(''If-Modified-Since'', t)] else []
             | None \<Rightarrow> []))"

definition conditionalFetch ::
  "IncrementalSyncConfig \<Rightarrow> SyncEnv \<Rightarrow> string \<Rightarrow> CacheEntry option \<Rightarrow> sync_error + FetchResult" where
  "conditionalFetch cfg env u cacheEntry =
     (case fetch env u (conditionalHeaders cfg cacheEntry) of
        FetchRejected msg \<Rightarrow> Inl (NetworkFailure msg)
      | Response st txt et lm body \<Rightarrow>
          if st = 304 then
            Inr \<lparr>content = [],
                 fr_etag = (case cacheEntry of None \<Rightarrow> None | Some e \<Rightarrow> etag e),
                 fr_lastModified = (case cacheEntry of None \<Rightarrow> None | Some e \<Rightarrow> lastModified e),
                 notModified = True\<rparr>
          else if \<not> (200 \<le> st \<and> st \<le> 299) then Inl (HttpFailure st txt)
          else (case body of
                  None \<Rightarrow> Inl BodyFailure
                | Some c \<Rightarrow>
                    Inr \<lparr>content = c, fr_etag = orUndefined et,
                         fr_lastModified = orUndefined lm, notModified = False\<rparr>))"

text \<open>\<open>b.toString(16).padStart(2, '0')\<close>, joined over the bytes of the digest.\<close>

definition hexByte :: "nat \<Rightarrow> string" where
  "hexByte b =
     (let h = toStringRadix 16 (int b) in if length h < 2 then CHR ''0'' # h else h)"

definition hexString :: "nat list \<Rightarrow> string" where
  "hexString bs = concat (map hexByte bs)"

text \<open>
  \<open>generateContentHash\<close>; \<open>now\<close> is the clock, read when hashing is switched off or
  when the digest throws.
\<close>

definition generateContentHash ::
  "IncrementalSyncConfig \<Rightarrow> (string \<Rightarrow> nat list option) \<Rightarrow> int \<Rightarrow> string \<Rightarrow> string" where
  "generateContentHash cfg dig now c =
     (if \<not> enableContentHashing cfg then ''no-hash-'' @ numToString now
      else case dig (normalizeContent c) of
             Some bytes \<Rightarrow> hexString bytes
           | None \<Rightarrow> ''fallback-'' @ numToString (int (length c)) @ ''-'' @ numToString now)"

definition createCacheEntry :: "int \<Rightarrow> string \<Rightarrow> FetchResult \<Rightarrow> string \<Rightarrow> CacheEntry" where
  "createCacheEntry now u fetchResult h =
     \<lparr>ce_url = u, etag = fr_etag fetchResult, lastModified = fr_lastModified fetchResult,
      contentHash = h, lastChecked = now, lastUpdated = now, hitCount = 0,
      contentLength = int (length (content fetchResult))\<rparr>"

definition detectChanges :: "CacheEntry option \<Rightarrow> CacheEntry \<Rightarrow> bool" where
  "detectChanges oldEntry newEntry =
     (case oldEntry of
        None \<Rightarrow> True
      | Some old \<Rightarrow>
          if contentHash old \<noteq> contentHash newEntry then True
          else if truthy (etag old) \<and> truthy (etag newEntry) \<and> etag old \<noteq> etag newEntry
               then True
          else if truthy (lastModified old) \<and> truthy (lastModified newEntry)
                  \<and> lastModified old \<noteq> lastModified newEntry
               then True
          else False)"

text \<open>
  \<open>recordChangeSignal\<close>: the signal is pushed on the list of its url, of which the
  last 100 are kept; then the signals are saved.
\<close>

definition recordChangeSignal ::
  "int \<Rightarrow> string \<Rightarrow> CacheEntry option \<Rightarrow> CacheEntry \<Rightarrow> IncrementalSync \<Rightarrow> IncrementalSync" where
  "recordChangeSignal now u oldEntry newEntry st =
     (let changeSignal =
            \<lparr>cs_url = u,
             changeType = (case oldEntry of None \<Rightarrow> Added | Some old \<Rightarrow> Modified),
             detectedAt = now,
             previousHash = map_option contentHash oldEntry,
             currentHash = contentHash newEntry,
             oldETag = (case oldEntry of None \<Rightarrow> None | Some old \<Rightarrow> etag old),
             newETag = etag newEntry,
             oldLastModified = (case oldEntry of None \<Rightarrow> None | Some old \<Rightarrow> lastModified old),
             newLastModified = lastModified newEntry\<rparr>;
          signals = (case Map_get (changeSignals st) u of None \<Rightarrow> [] | Some l \<Rightarrow> l)
                    @ [changeSignal];
          kept = (if length signals > 100 then drop (length signals - 100) signals else signals)
      in saveChangeSignals (st\<lparr>changeSignals := Map_set u kept (changeSignals st)\<rparr>))"

section \<open>incrementalSync.ts: syncUrl\<close>

text \<open>
  The \<open>try\<close> block of \<open>syncUrl\<close>: the state it leaves, and the result it returns or the
  error it throws. Only \<open>conditionalFetch\<close> throws: \<open>generateContentHash\<close> and the
  saves catch their own errors.
\<close>

definition syncUrl_try ::
  "SyncEnv \<Rightarrow> string \<Rightarrow> bool \<Rightarrow> IncrementalSync \<Rightarrow> IncrementalSync \<times> (sync_error + SyncResult)" where
  "syncUrl_try env u forceRefresh st =
     (let cacheEntry = getCacheEntry st u;
          shouldRefresh = shouldRefreshUrl (sync_config st) (refreshNow env) u cacheEntry forceRefresh;
          cacheCheckTime = cacheEnd env - cacheStart env
      in case (shouldRefresh, cacheEntry) of
           (False, Some e) \<Rightarrow>
             (let e1 = e\<lparr>hitCount := hitCount e + 1, lastChecked := touchTime env\<rparr>
              in (updateCacheEntry u e1 st,
                  Inr \<lparr>sr_url = u, changed = False, cached = True, sr_etag = etag e1,
                       sr_lastModified = lastModified e1, sr_contentHash = contentHash e1,
                       timing = \<lparr>cacheCheck = cacheCheckTime, download = 0, processing = 0,
                                  total = endTime env - startTime env\<rparr>\<rparr>))
         | _ \<Rightarrow>
             (case conditionalFetch (sync_config st) env u cacheEntry of
                Inl err \<Rightarrow> (st, Inl err)
              | Inr fetchResult \<Rightarrow>
                  (let downloadTime = downloadEnd env - downloadStart env
                   in case (notModified fetchResult, cacheEntry) of
                        (True, Some e) \<Rightarrow>
                          (let e1 = e\<lparr>lastChecked := touchTime env, hitCount := hitCount e + 1\<rparr>
                           in (updateCacheEntry u e1 st,
                               Inr \<lparr>sr_url = u, changed = False, cached = True,
                                    sr_etag = etag e1, sr_lastModified = lastModified e1,
                                    sr_contentHash = contentHash e1,
                                    timing = \<lparr>cacheCheck = cacheCheckTime,
                                               download = downloadTime, processing = 0,
                                               total = endTime env - startTime env\<rparr>\<rparr>))
                      | _ \<Rightarrow>
                          (let h = generateContentHash (sync_config st) (digest env)
                                     (hashTime env) (content fetchResult);
                               newCacheEntry = createCacheEntry (entryTime env) u fetchResult h;
                               processingTime = processingEnd env - processingStart env;
                               hasChanged = detectChanges cacheEntry newCacheEntry;
                               st1 = updateCacheEntry u newCacheEntry st;
                               st2 = (if hasChanged
                                      then recordChangeSignal (signalTime env) u cacheEntry
                                             newCacheEntry st1
                                      else st1)
                           in (st2,
                               Inr \<lparr>sr_url = u, changed = hasChanged, cached = False,
                                    sr_etag = etag newCacheEntry,
                                    sr_lastModified = lastModified newCacheEntry,
                                    sr_contentHash = h,
                                    timing = \<lparr>cacheCheck = cacheCheckTime,
                                               download = downloadTime,
                                               processing = processingTime,
                                               total = endTime env - startTime env\<rparr>\<rparr>)))))"

text \<open>
  The timings that the \<open>catch\<close> block reports: those measured before the error was
  thrown, which happens inside the download.
\<close>

definition errorResult :: "SyncEnv \<Rightarrow> string \<Rightarrow> SyncResult" where
  "errorResult env u =
     \<lparr>sr_url = u, changed = False, cached = False, sr_etag = None, sr_lastModified = None,
      sr_contentHash = [],
      timing = \<lparr>cacheCheck = cacheEnd env - cacheStart env, download = 0, processing = 0,
                 total = endTime env - startTime env\<rparr>\<rparr>"

text \<open>\<open>syncUrl\<close>: the \<open>try\<close> block, and the \<open>catch\<close> block that turns an error into a result.\<close>

definition syncUrl :: "SyncEnv \<Rightarrow> string \<Rightarrow> bool \<Rightarrow> IncrementalSync \<Rightarrow> IncrementalSync \<times> SyncResult" where
  "syncUrl env u forceRefresh st =
     (case syncUrl_try env u forceRefresh st of
        (st', Inr r) \<Rightarrow> (st', r)
      | (st', Inl err) \<Rightarrow> (st', errorResult env u))"

section \<open>scheduler.ts: the data model\<close>

datatype session_status = Running | Completed | Failed | Cancelled

text \<open>
  \<open>interface CrawlSession\<close>; \<open>id\<close>, \<open>startTime\<close>, \<open>endTime\<close>, \<open>status\<close> and \<open>error\<close> carry the
  prefix \<open>session\<close> here.
\<close>

record CrawlSession =
  sessionId :: string
  sessionStart :: int
  sessionEnd :: "int option"
  sessionStatus :: session_status
  tasksScheduled :: int
  tasksCompleted :: int
  tasksFailed :: int
  sessionError :: "string option"

datatype sync_frequency = StartupOnly | Hourly | Daily | Manual

record SchedulerConfig =
  enabled :: bool
  syncFrequency :: sync_frequency
  crawlDelayMs :: int
  maxCrawlDurationMs :: int
  enableIncrementalSync :: bool


text \<open>
  The fields of \<open>class Scheduler\<close>, with what it reaches: the queue manager of the
  module, the stored \<open>crawlSessions\<close> history and the \<open>lastCrawl\<close> time of the student
  index.
\<close>

record Scheduler =
  currentSession :: "CrawlSession option"
  sched_config :: SchedulerConfig
  isRunning :: bool
  queueManager :: QueueManager
  crawlSessions :: "CrawlSession list option"
  lastCrawl :: "int option"

text \<open>What \<open>authManager.performAuthProbe()\<close> did.\<close>

datatype auth_outcome = Authenticated | NotAuthenticated | ProbeThrew string

text \<open>
  One round of the monitoring loop: the clock at the loop test, the queue manager as
  the concurrent queue processing has left it by then, and the clock at the timeout
  test.
\<close>

record Tick =
  tickHead :: int
  tickQueue :: QueueManager
  tickCheck :: int

text \<open>
  The environment of one call of \<open>startCrawlSession\<close>: the collaborators and the
  readings of \<open>Date.now()\<close>, in the order in which the method reads the clock.
\<close>

record SchedEnv =
  authProbe :: auth_outcome
  hosts :: "string list"
  idNow :: int
  startNow :: int
  seedNow1 :: int
  enqueueNow1 :: int
  seedNow2 :: int
  enqueueNow2 :: int
  monitorStart :: int
  ticks :: "Tick list"
  endNow :: int
  indexNow :: int


section \<open>queueManager.ts: statistics\<close>

record QueueStats =
  total :: int
  pending :: int
  runningCount :: int
  completedCount :: int
  failedCount :: int
  retries :: int


section \<open>scheduler.ts: crawl sessions\<close>

text \<open>\<open>saveCrawlSession\<close>: the session is pushed on the stored history, the last 10 kept.\<close>

definition saveCrawlSession :: "Scheduler \<Rightarrow> Scheduler" where
  "saveCrawlSession s =
     (case currentSession s of
        None \<Rightarrow> s
      | Some c \<Rightarrow>
          (let sessions = (case crawlSessions s of None \<Rightarrow> [] | Some l \<Rightarrow> l) @ [c];
               kept = (if length sessions > 10 then drop (length sessions - 10) sessions
                       else sessions)
           in s\<lparr>crawlSessions := Some kept\<rparr>))"

text \<open>
  \<open>endCrawlSession\<close>; \<open>now\<close> is the clock when the session is closed and \<open>now'\<close> the
  clock when the student index is updated.
\<close>

definition endCrawlSession ::
  "int \<Rightarrow> int \<Rightarrow> session_status \<Rightarrow> string option \<Rightarrow> Scheduler \<Rightarrow> Scheduler" where
  "endCrawlSession now now' st err s =
     (case currentSession s of
        None \<Rightarrow> s
      | Some c \<Rightarrow>
          (let c1 = c\<lparr>sessionEnd := Some now, sessionStatus := st\<rparr>;
               c2 = (if truthy err then c1\<lparr>sessionError := err\<rparr> else c1);
               s1 = s\<lparr>currentSession := Some c2, isRunning := False\<rparr>;
               s2 = saveCrawlSession s1;
               s3 = s2\<lparr>lastCrawl := Some now'\<rparr>
           in s3\<lparr>currentSession := None\<rparr>))"

definition cancelCrawl :: "int \<Rightarrow> int \<Rightarrow> Scheduler \<Rightarrow> Scheduler" where
  "cancelCrawl now now' s =
     (case currentSession s of
        None \<Rightarrow> s
      | Some c \<Rightarrow> endCrawlSession now now' Cancelled (Some ''Cancelled by user'') s)"

text \<open>\<open>this.currentSession.tasksScheduled++\<close>.\<close>

definition countScheduled :: "Scheduler \<Rightarrow> Scheduler" where
  "countScheduled s =
     s\<lparr>currentSession := map_option (\<lambda>c. c\<lparr>tasksScheduled := tasksScheduled c + 1\<rparr>)
                             (currentSession s)\<rparr>"

text \<open>\<open>scheduleInitialTasks\<close>: the state it leaves, and the error message if it threw.\<close>

definition scheduleInitialTasks :: "SchedEnv \<Rightarrow> Scheduler \<Rightarrow> Scheduler \<times> string option" where
  "scheduleInitialTasks env s =
     (case currentSession s of
        None \<Rightarrow> (s, None)
      | Some c \<Rightarrow>
          (case hosts env of
             [] \<Rightarrow> (s, Some ''No Canvas hosts configured'')
           | primaryHost # others \<Rightarrow>
               (let q1 = snd (addTask (enqueueNow1 env)
                          \<lparr>task_id = [], task_type = Dashboard, url = primaryHost @ ''/dashboard'',
                           courseId = None, priority = 10, retryCount = 0, maxRetries = 3,
                           createdAt = 0, scheduledFor = real_of_int (seedNow1 env),
                           lastAttempt = None, task_error = None, metadata = None\<rparr>
                          (queueManager s));
                    s1 = countScheduled (s\<lparr>queueManager := q1\<rparr>);
                    q2 = snd (addTask (enqueueNow2 env)
                          \<lparr>task_id = [], task_type = CourseList, url = primaryHost @ ''/courses'',
                           courseId = None, priority = 9, retryCount = 0, maxRetries = 3,
                           createdAt = 0, scheduledFor = real_of_int (seedNow2 env + 1000),
                           lastAttempt = None, task_error = None, metadata = None\<rparr>
                          (queueManager s1));
                    s2 = countScheduled (s1\<lparr>queueManager := q2\<rparr>)
                in (s2, None))))"







section \<open>scheduler.ts: the sessions and their invariant\<close>






section \<open>Concrete scenarios: the work queue\<close>

text \<open>
  The object literal that \<open>scheduler.ts\<close> hands to \<open>addTask\<close>: type, url, priority,
  \<open>maxRetries: 3\<close> and \<open>scheduledFor\<close>; the other fields are filled in by \<open>addTask\<close>.
\<close>

definition taskSpec :: "task_type \<Rightarrow> string \<Rightarrow> int \<Rightarrow> real \<Rightarrow> CrawlTask" where
  "taskSpec ty u p sched =
     \<lparr>task_id = [], task_type = ty, url = u, courseId = None, priority = p, retryCount = 0,
      maxRetries = 3, createdAt = 0, scheduledFor = sched, lastAttempt = None,
      task_error = None, metadata = None\<rparr>"

text \<open>The queue manager of the module: the default configuration over an empty store.\<close>

definition emptyQueue :: QueueManager where
  "emptyQueue = newQueueManager defaultConcurrencyConfig emptyStorage"

text \<open>The dashboard task enqueued at time 1000, and then started at time 1500.\<close>

definition queuedDashboard :: QueueManager where
  "queuedDashboard =
     snd (addTask 1000 (taskSpec Dashboard ''https://c.edu/dashboard'' 10 1000) emptyQueue)"

definition dashboardInFlight :: QueueManager where
  "dashboardInFlight = snd (executeTask_begin 1500 (queue queuedDashboard ! 0) queuedDashboard)"

text \<open>
  While the dashboard task is in flight a second task is enqueued at time 1600, which
  saves the queue; then the process restarts and a new queue manager loads the store.
\<close>

definition restartedInFlight :: QueueManager where
  "restartedInFlight =
     newQueueManager defaultConcurrencyConfig
       (store (snd (addTask 1600 (taskSpec CourseList ''https://c.edu/courses'' 9 2600)
                      dashboardInFlight)))"

text \<open>Executions that all fail with a server error, 100 ms after they began.\<close>

definition alwaysFailing :: "int \<Rightarrow> ExecEnv" where
  "alwaysFailing now =
     \<lparr>outcomeOf = (\<lambda>t. Threw ''HTTP 500: Internal Server Error''),
      finishedAt = (\<lambda>t. now + 100), randomOf = (\<lambda>t. 0), clockAt = (\<lambda>i. now)\<rparr>"

text \<open>A task that allows one attempt only, enqueued at time 1000, failing once and twice.\<close>

definition queuedSingleAttempt :: QueueManager where
  "queuedSingleAttempt =
     snd (addTask 1000 ((taskSpec Dashboard ''https://c.edu/dashboard'' 10 1000)\<lparr>maxRetries := 1\<rparr>)
            emptyQueue)"

definition failedOnce :: QueueManager where
  "failedOnce =
     executeTask (alwaysFailing 1500) 1500 (queue queuedSingleAttempt ! 0) queuedSingleAttempt"

definition failedTwice :: QueueManager where
  "failedTwice = executeTask (alwaysFailing 4000) 4000 (queue failedOnce ! 0) failedOnce"

section \<open>Concrete scenarios: the incremental sync\<close>

text \<open>
  An entry for the dashboard, fetched at time 0 with an entity tag, and revalidated
  25 hours later (time 90000000) by a response that said "not modified".
\<close>

definition dashboardEntry :: CacheEntry where
  "dashboardEntry =
     \<lparr>ce_url = ''https://c.edu/dashboard'', etag = Some ''W/abc'', lastModified = None,
      contentHash = ''3f2a'', lastChecked = 90000000, lastUpdated = 0, hitCount = 1,
      contentLength = 1024\<rparr>"

definition dashboardCached :: IncrementalSync where
  "dashboardCached =
     \<lparr>sync_config = defaultSyncConfig, cache = [(''https://c.edu/dashboard'', dashboardEntry)],
      changeSignals = [], storedCache = Some [dashboardEntry], storedSignals = None\<rparr>"

text \<open>An environment in which every fetch is answered as given, at the given time.\<close>

definition answering :: "fetch_outcome \<Rightarrow> int \<Rightarrow> SyncEnv" where
  "answering r now =
     \<lparr>fetch = (\<lambda>u hs. r), digest = (\<lambda>s. Some [length s mod 256]), startTime = now,
      cacheStart = now, refreshNow = now, cacheEnd = now, touchTime = now,
      downloadStart = now, downloadEnd = now, processingStart = now, hashTime = now,
      entryTime = now, processingEnd = now, signalTime = now, endTime = now\<rparr>"

section \<open>Concrete scenarios: the session manager\<close>



section \<open>Concrete scenarios: fingerprints\<close>






section \<open>Properties of the retry policy\<close>









section \<open>Properties of the work queue\<close>

subsection \<open>Auxiliary facts\<close>

lemma findIndex_Some:
  "findIndex i q = Some k \<Longrightarrow> k < length q \<and> task_id (q ! k) = i"
proof (induction q arbitrary: k)
  case Nil
  then show ?case by simp
next
  case (Cons t ts)
  then show ?case by (auto split: if_splits)
qed

lemma findIndex_None: "findIndex i q = None \<longleftrightarrow> i \<notin> task_id ` set q"
  by (induction q) auto

lemma queue_startProcessing: "queue (startProcessing qm) = queue qm"
  by (simp add: startProcessing_def)

lemma ids_list_update:
  assumes "k < length q" and "task_id (q ! k) = i" and "task_id t = i"
  shows "map task_id (q[k := t]) = map task_id q"
  using assms by (simp add: map_update list_update_same_conv)

lemma one_entry_for_id:
  "distinct (map task_id q) \<Longrightarrow> i \<in> task_id ` set q
     \<Longrightarrow> length (filter (\<lambda>t. task_id t = i) q) = 1"
proof (induction q)
  case Nil
  then show ?case by simp
next
  case (Cons t ts)
  show ?case
  proof (cases "task_id t = i")
    case True
    then have "i \<notin> task_id ` set ts" using Cons.prems(1) by auto
    then have "filter (\<lambda>t. task_id t = i) ts = []"
      by (auto simp: filter_empty_conv)
    with True show ?thesis by simp
  next
    case False
    then show ?thesis using Cons by auto
  qed
qed

lemma queue_addTask:
  "queue (snd (addTask now task qm)) =
     (case findIndex (generateTaskId (task_type task) now (url task)) (queue qm) of
        Some k \<Rightarrow>
          (if priority (queue qm ! k) < priority task
           then (queue qm)[k := task\<lparr>task_id := generateTaskId (task_type task) now (url task),
                                      retryCount := 0, createdAt := now\<rparr>]
           else queue qm)
      | None \<Rightarrow> queue qm @ [task\<lparr>task_id := generateTaskId (task_type task) now (url task),
                                      retryCount := 0, createdAt := now\<rparr>])"
  by (simp add: addTask_def Let_def queue_startProcessing queue_saveQueue split: option.splits)

lemma store_addTask:
  "crawlQueue (store (snd (addTask now task qm))) = Some (queue (snd (addTask now task qm)))"
  "queueStats (store (snd (addTask now task qm)))
     = Some \<lparr>st_running = running qm, st_completed = completed qm, st_failed = failed qm,
             st_lastUpdated = now\<rparr>"
  by (simp_all add: addTask_def Let_def saveQueue_def startProcessing_def split: option.splits)

lemma removed_id_gone:
  assumes "distinct (map task_id q)" and "findIndex i q = Some k"
  shows "i \<notin> task_id ` set (take k q @ drop (Suc k) q)"
proof -
  from findIndex_Some [OF assms(2)] have k: "k < length q" and ik: "task_id (q ! k) = i"
    by simp_all
  have q: "q = take k q @ q ! k # drop (Suc k) q"
    using k by (simp add: id_take_nth_drop)
  have "distinct (map task_id (take k q @ q ! k # drop (Suc k) q))"
    using assms(1) q by simp
  then have "task_id (q ! k) \<notin> task_id ` set (take k q)
      \<and> task_id (q ! k) \<notin> task_id ` set (drop (Suc k) q)"
    by auto
  then show ?thesis using ik by auto
qed

lemma removeTask_gone:
  assumes "distinct (map task_id (queue qm))"
  shows "i \<notin> task_id ` set (queue (snd (removeTask now i qm)))"
proof (cases "findIndex i (queue qm)")
  case None
  then have "i \<notin> task_id ` set (queue qm)" by (simp add: findIndex_None)
  with None show ?thesis by (simp add: removeTask_def)
next
  case (Some k)
  then show ?thesis
    using removed_id_gone [OF assms Some] by (simp add: removeTask_def queue_saveQueue)
qed

lemma running_saveQueue: "running (saveQueue now qm) = running qm"
  by (simp add: saveQueue_def)

lemma running_removeTask: "running (snd (removeTask now i qm)) = running qm"
  by (simp add: removeTask_def saveQueue_def split: option.splits)

lemma running_recordRecentError: "running (recordRecentError e qm) = running qm"
  by (simp add: recordRecentError_def Let_def)

lemma running_writeTask: "running (writeTask t qm) = running qm"
  by (simp add: writeTask_def)

lemma task_id_writeTask:
  "task_id t = task_id t' \<Longrightarrow> map task_id (queue (writeTask t qm)) = map task_id (queue qm)"
  by (simp add: writeTask_def)

lemma executeTask_end_not_running:
  "\<not> Set_has (running (executeTask_end outcome now rnd task qm)) (task_id task)"
  by (cases outcome)
     (simp_all add: executeTask_end_def Let_def running_saveQueue running_removeTask
       running_recordRecentError running_writeTask Set_has_def Set_delete_def)


lemma foldl_Set_add: "distinct (acc @ xs) \<Longrightarrow> foldl (\<lambda>s x. Set_add x s) acc xs = acc @ xs"
proof (induction xs arbitrary: acc)
  case Nil
  then show ?case by simp
next
  case (Cons x xs)
  then have "Set_add x acc = acc @ [x]" by (simp add: Set_add_def)
  moreover have "distinct ((acc @ [x]) @ xs)" using Cons.prems by simp
  ultimately show ?case using Cons.IH [of "acc @ [x]"] by simp
qed

lemma Set_new_distinct: "distinct xs \<Longrightarrow> Set_new xs = xs"
  using foldl_Set_add [of "[]" xs] by (simp add: Set_new_def)

text \<open>
  A restart restores the queue array and the three id sets as they were saved: the
  running set too.
\<close>

lemma restart_roundtrip:
  assumes "distinct (running qm)" and "distinct (completed qm)" and "distinct (failed qm)"
  shows "newQueueManager (config qm) (store (saveQueue now qm))
           = qm\<lparr>isProcessing := False, store := store (saveQueue now qm)\<rparr>"
  using assms
  by (simp add: newQueueManager_def loadQueue_def saveQueue_def Set_new_distinct)

subsection \<open>The scenarios, evaluated\<close>

lemma id_dashboard_1000:
  "generateTaskId Dashboard 1000 ''https://c.edu/dashboard'' = ''dashboard_1000_refszl''"
  by (simp add: generateTaskId_def numToString_def simpleHash_def hashStep_def
      toStringRadix.simps digitChar_def)

lemma id_dashboard_2000:
  "generateTaskId Dashboard 2000 ''https://c.edu/dashboard'' = ''dashboard_2000_refszl''"
  by (simp add: generateTaskId_def numToString_def simpleHash_def hashStep_def
      toStringRadix.simps digitChar_def)

lemma id_courses_1600:
  "generateTaskId CourseList 1600 ''https://c.edu/courses'' = ''course-list_1600_tpll2d''"
  by (simp add: generateTaskId_def numToString_def simpleHash_def hashStep_def
      toStringRadix.simps digitChar_def)

lemma taskSpec_fields:
  "task_type (taskSpec ty u p s) = ty" "url (taskSpec ty u p s) = u"
  "priority (taskSpec ty u p s) = p" "scheduledFor (taskSpec ty u p s) = s"
  by (simp_all add: taskSpec_def)

lemma emptyQueue_eq:
  "emptyQueue = \<lparr>queue = [], running = [], completed = [], failed = [],
                  config = defaultConcurrencyConfig, isProcessing = False,
                  store = emptyStorage\<rparr>"
  by (simp add: emptyQueue_def newQueueManager_def loadQueue_def emptyStorage_def)

lemma queuedDashboard_eq:
  "queuedDashboard =
     \<lparr>queue = [(taskSpec Dashboard ''https://c.edu/dashboard'' 10 1000)
                 \<lparr>task_id := ''dashboard_1000_refszl'', createdAt := 1000\<rparr>],
      running = [], completed = [], failed = [], config = defaultConcurrencyConfig,
      isProcessing = True,
      store = \<lparr>crawlQueue = Some [(taskSpec Dashboard ''https://c.edu/dashboard'' 10 1000)
                 \<lparr>task_id := ''dashboard_1000_refszl'', createdAt := 1000\<rparr>],
               queueStats = Some \<lparr>st_running = [], st_completed = [], st_failed = [],
                                   st_lastUpdated = 1000\<rparr>,
               recentErrors = None\<rparr>\<rparr>"
  by (simp add: queuedDashboard_def addTask_def Let_def emptyQueue_eq emptyStorage_def
      saveQueue_def startProcessing_def taskSpec_fields id_dashboard_1000)
     (simp add: taskSpec_def)

lemma dashboardInFlight_eq:
  "queue dashboardInFlight =
     [(taskSpec Dashboard ''https://c.edu/dashboard'' 10 1000)
        \<lparr>task_id := ''dashboard_1000_refszl'', createdAt := 1000, lastAttempt := Some 1500\<rparr>]"
  "running dashboardInFlight = [''dashboard_1000_refszl'']"
  "completed dashboardInFlight = []" "failed dashboardInFlight = []"
  by (simp_all add: dashboardInFlight_def queuedDashboard_eq executeTask_begin_def Let_def
      writeTask_def Set_add_def)

subsection \<open>Re-submission of a task (C1)\<close>

text \<open>
  C1 (as amended). When the id derived for a submission is already the id of a queue
  entry, \<open>addTask\<close> returns that id and leaves the ids in the queue as they were, so
  the queue still holds exactly one entry for it when its ids were distinct. The
  priority of that entry becomes the maximum of the two priorities: a submission of
  strictly higher priority replaces the entry as a whole (its retry count is 0 again,
  its creation and scheduling times are those of the new submission), and otherwise
  the queue array is left as it was.
\<close>

theorem addTask_existing:
  assumes found: "findIndex (generateTaskId (task_type task) now (url task)) (queue qm) = Some k"
    and ids: "distinct (map task_id (queue qm))"
  shows "fst (addTask now task qm) = generateTaskId (task_type task) now (url task)
       \<and> map task_id (queue (snd (addTask now task qm))) = map task_id (queue qm)
       \<and> length (filter (\<lambda>t. task_id t = generateTaskId (task_type task) now (url task))
            (queue (snd (addTask now task qm)))) = 1
       \<and> priority (queue (snd (addTask now task qm)) ! k)
           = max (priority (queue qm ! k)) (priority task)
       \<and> queue (snd (addTask now task qm))
           = (if priority (queue qm ! k) < priority task
              then (queue qm)[k := task\<lparr>task_id := generateTaskId (task_type task) now (url task),
                                         retryCount := 0, createdAt := now\<rparr>]
              else queue qm)"
proof -
  let ?i = "generateTaskId (task_type task) now (url task)"
  let ?new = "task\<lparr>task_id := ?i, retryCount := 0, createdAt := now\<rparr>"
  let ?q' = "queue (snd (addTask now task qm))"
  from findIndex_Some [OF found]
  have k: "k < length (queue qm)" and idk: "task_id (queue qm ! k) = ?i"
    by simp_all
  have q: "?q' = (if priority (queue qm ! k) < priority task
                  then (queue qm)[k := ?new] else queue qm)"
    using found by (simp add: queue_addTask)
  have "map task_id ((queue qm)[k := ?new]) = map task_id (queue qm)"
    using k idk by (intro ids_list_update) simp_all
  with q have same: "map task_id ?q' = map task_id (queue qm)"
    by simp
  have "?i \<in> task_id ` set ?q'"
    using k idk same by (metis image_set length_map nth_map nth_mem)
  moreover have "distinct (map task_id ?q')"
    unfolding same by (rule ids)
  ultimately have one: "length (filter (\<lambda>t. task_id t = ?i) ?q') = 1"
    by (rule one_entry_for_id [rotated])
  have "fst (addTask now task qm) = ?i"
    by (simp add: addTask_def Let_def)
  moreover have "priority (?q' ! k) = max (priority (queue qm ! k)) (priority task)"
    using q k by simp
  ultimately show ?thesis
    using same one q by simp
qed

theorem addTask_existing_witness:
  "findIndex (generateTaskId Dashboard 1000 ''https://c.edu/dashboard'') (queue queuedDashboard)
     = Some 0
   \<and> distinct (map task_id (queue queuedDashboard))
   \<and> map priority (queue queuedDashboard) = [10]
   \<and> map priority
        (queue (snd (addTask 1000 (taskSpec Dashboard ''https://c.edu/dashboard'' 11 8000)
                       queuedDashboard))) = [11]"
proof -
  let ?t = "taskSpec Dashboard ''https://c.edu/dashboard'' 11 8000"
  have f: "findIndex (generateTaskId (task_type ?t) 1000 (url ?t)) (queue queuedDashboard) = Some 0"
    by (simp add: taskSpec_fields id_dashboard_1000 queuedDashboard_eq)
  have d: "distinct (map task_id (queue queuedDashboard))"
    by (simp add: queuedDashboard_eq)
  from addTask_existing [OF f d] f d show ?thesis
    by (simp add: taskSpec_fields id_dashboard_1000) (simp add: queuedDashboard_eq taskSpec_def)
qed

text \<open>
  C1 as stated fails twice. The id contains the clock reading of \<open>generateTaskId\<close>, so
  the same type and url submitted at times 1000 and 2000 give two ids and two queue
  entries. And a re-submission under the same id with a higher priority replaces the
  whole entry: here its \<open>scheduledFor\<close> moves from 1000 to 7000.
\<close>

theorem addTask_same_work_twice:
  "map task_id
     (queue (snd (addTask 2000 (taskSpec Dashboard ''https://c.edu/dashboard'' 10 1000)
                    queuedDashboard)))
     = [''dashboard_1000_refszl'', ''dashboard_2000_refszl'']
   \<and> map scheduledFor (queue queuedDashboard) = [1000]
   \<and> map scheduledFor
        (queue (snd (addTask 1000 (taskSpec Dashboard ''https://c.edu/dashboard'' 11 7000)
                       queuedDashboard)))
     = [7000]"
proof -
  have a: "map task_id
     (queue (snd (addTask 2000 (taskSpec Dashboard ''https://c.edu/dashboard'' 10 1000)
                    queuedDashboard)))
     = [''dashboard_1000_refszl'', ''dashboard_2000_refszl'']"
    by (simp add: queue_addTask taskSpec_fields id_dashboard_2000 queuedDashboard_eq)
  have b: "map scheduledFor (queue queuedDashboard) = [1000]"
    by (simp add: queuedDashboard_eq taskSpec_def)
  have c: "map scheduledFor
        (queue (snd (addTask 1000 (taskSpec Dashboard ''https://c.edu/dashboard'' 11 7000)
                       queuedDashboard)))
     = [7000]"
    by (simp add: queue_addTask taskSpec_fields id_dashboard_1000 queuedDashboard_eq)
  from a b c show ?thesis by simp
qed

subsection \<open>Restart (C2)\<close>

text \<open>
  C2, evaluated where the code departs from it. The dashboard task is in flight when
  the queue is saved; after the restart both tasks are in the queue array again, but
  the id of the dashboard task is still in the running set, so \<open>processQueue\<close> finds it
  not ready at any time: it is not back in the pending state.
\<close>

theorem restart_keeps_task_in_flight:
  "map task_id (queue restartedInFlight) = [''dashboard_1000_refszl'', ''course-list_1600_tpll2d'']
   \<and> running restartedInFlight = [''dashboard_1000_refszl'']
   \<and> (\<forall>now. \<not> taskReady now restartedInFlight (queue restartedInFlight ! 0))"
proof -
  let ?saved = "snd (addTask 1600 (taskSpec CourseList ''https://c.edu/courses'' 9 2600)
                      dashboardInFlight)"
  have ids: "map task_id (queue ?saved) = [''dashboard_1000_refszl'', ''course-list_1600_tpll2d'']"
    by (simp add: queue_addTask taskSpec_fields id_courses_1600 dashboardInFlight_eq)
  have a: "queue restartedInFlight = queue ?saved"
    by (simp add: restartedInFlight_def newQueueManager_def loadQueue_def store_addTask)
  have b: "running restartedInFlight = [''dashboard_1000_refszl'']"
    by (simp add: restartedInFlight_def newQueueManager_def loadQueue_def store_addTask
        dashboardInFlight_eq Set_new_def Set_add_def)
  obtain t ts where ts: "queue ?saved = t # ts"
    using ids by (cases "queue ?saved") simp_all
  with ids have "task_id t = ''dashboard_1000_refszl''"
    by simp
  then have "task_id (queue restartedInFlight ! 0) = ''dashboard_1000_refszl''"
    using a ts by simp
  then have "\<forall>now. \<not> taskReady now restartedInFlight (queue restartedInFlight ! 0)"
    using b by (simp add: taskReady_def Set_has_def)
  with a b ids show ?thesis by simp
qed

subsection \<open>Exhausted attempts (C3)\<close>

text \<open>
  What \<open>executeTask\<close> compares the attempt count with is \<open>config.maxRetries\<close>. When that
  bound is reached by a failure, the task leaves the queue and the running set, its id
  joins the failed set, and the head of the stored \<open>recentErrors\<close> list, which never
  holds more than 50 entries, describes it.
\<close>

lemma executeTask_end_exhausted:
  assumes bound: "cfgMaxRetries (config qm) \<le> retryCount task + 1"
    and ids: "distinct (map task_id (queue qm))"
  shows "task_id task \<notin> task_id ` set (queue (executeTask_end (Threw msg) now rnd task qm))
       \<and> Set_has (failed (executeTask_end (Threw msg) now rnd task qm)) (task_id task)
       \<and> \<not> Set_has (running (executeTask_end (Threw msg) now rnd task qm)) (task_id task)
       \<and> (\<exists>rest. recentErrors (store (executeTask_end (Threw msg) now rnd task qm))
              = Some (\<lparr>re_id = task_id task, re_type = task_type task, re_url = url task,
                        re_error = Some msg, re_when = now\<rparr> # rest)
            \<and> length rest < 50)"
proof -
  let ?t1 = "task\<lparr>task_error := Some msg, retryCount := retryCount task + 1\<rparr>"
  let ?q1 = "writeTask ?t1 qm"
  let ?q2 = "?q1\<lparr>failed := Set_add (task_id ?t1) (failed ?q1),
                   running := Set_delete (task_id ?t1) (running ?q1)\<rparr>"
  let ?q3 = "snd (removeTask now (task_id ?t1) ?q2)"
  let ?e = "\<lparr>re_id = task_id ?t1, re_type = task_type ?t1, re_url = url ?t1,
             re_error = task_error ?t1, re_when = now\<rparr>"
  have res: "executeTask_end (Threw msg) now rnd task qm = saveQueue now (recordRecentError ?e ?q3)"
    using bound by (simp add: executeTask_end_def Let_def writeTask_def)
  have "map task_id (queue ?q2) = map task_id (queue qm)"
    using task_id_writeTask [of ?t1 task qm] by simp
  then have "distinct (map task_id (queue ?q2))"
    using ids by simp
  from removeTask_gone [OF this, of "task_id ?t1" now]
  have gone: "task_id task \<notin> task_id ` set (queue ?q3)"
    by simp
  have failed3: "failed ?q3 = Set_add (task_id task) (failed qm)"
    by (simp add: removeTask_def saveQueue_def writeTask_def split: option.splits)
  have a: "task_id task \<notin> task_id ` set (queue (executeTask_end (Threw msg) now rnd task qm))"
    using gone by (simp add: res queue_saveQueue queue_recordRecentError)
  have b: "Set_has (failed (executeTask_end (Threw msg) now rnd task qm)) (task_id task)"
    using failed3
    by (simp add: res saveQueue_def recordRecentError_def Let_def Set_has_def Set_add_def)
  have c: "\<not> Set_has (running (executeTask_end (Threw msg) now rnd task qm)) (task_id task)"
    by (rule executeTask_end_not_running)
  have d: "\<exists>rest. recentErrors (store (executeTask_end (Threw msg) now rnd task qm))
              = Some (\<lparr>re_id = task_id task, re_type = task_type task, re_url = url task,
                        re_error = Some msg, re_when = now\<rparr> # rest)
            \<and> length rest < 50"
    by (cases "recentErrors (store ?q3)")
       (simp_all add: res saveQueue_def recordRecentError_def Let_def take_Cons')
  from a b c d show ?thesis by blast
qed

text \<open>
  C3, evaluated where the code departs from it. Under the default configuration
  (\<open>config.maxRetries = 3\<close>) a task submitted with \<open>maxRetries = 1\<close> fails once: its
  attempt count has reached its own maximum, yet it stays in the queue, rescheduled,
  and nothing is recorded as failed. After the second failure it is still queued, with
  an attempt count of 2 above its maximum of 1.
\<close>

theorem task_maxRetries_not_consulted:
  "map (\<lambda>t. (task_id t, retryCount t, maxRetries t)) (queue failedOnce)
     = [(''dashboard_1000_refszl'', 1, 1)]
   \<and> failed failedOnce = [] \<and> recentErrors (store failedOnce) = None
   \<and> map (\<lambda>t. (task_id t, retryCount t, maxRetries t)) (queue failedTwice)
     = [(''dashboard_1000_refszl'', 2, 1)]
   \<and> failed failedTwice = [] \<and> recentErrors (store failedTwice) = None"
proof -
  have s0: "queuedSingleAttempt =
     \<lparr>queue = [(taskSpec Dashboard ''https://c.edu/dashboard'' 10 1000)
                 \<lparr>task_id := ''dashboard_1000_refszl'', maxRetries := 1, createdAt := 1000\<rparr>],
      running = [], completed = [], failed = [], config = defaultConcurrencyConfig,
      isProcessing = True,
      store = \<lparr>crawlQueue = Some [(taskSpec Dashboard ''https://c.edu/dashboard'' 10 1000)
                 \<lparr>task_id := ''dashboard_1000_refszl'', maxRetries := 1, createdAt := 1000\<rparr>],
               queueStats = Some \<lparr>st_running = [], st_completed = [], st_failed = [],
                                   st_lastUpdated = 1000\<rparr>,
               recentErrors = None\<rparr>\<rparr>"
    by (simp add: queuedSingleAttempt_def addTask_def Let_def emptyQueue_eq emptyStorage_def
        saveQueue_def startProcessing_def taskSpec_fields id_dashboard_1000)
       (simp add: taskSpec_def)
  have s1: "queue failedOnce =
      [(taskSpec Dashboard ''https://c.edu/dashboard'' 10 1000)
         \<lparr>task_id := ''dashboard_1000_refszl'', maxRetries := 1, createdAt := 1000,
          lastAttempt := Some 1500, task_error := Some ''HTTP 500: Internal Server Error'',
          retryCount := 1, scheduledFor := 2600\<rparr>]"
    and s1': "running failedOnce = []" "failed failedOnce = []" "completed failedOnce = []"
      "recentErrors (store failedOnce) = None" "config failedOnce = defaultConcurrencyConfig"
    by (simp_all add: failedOnce_def s0 executeTask_def executeTask_begin_def executeTask_end_def
        alwaysFailing_def Let_def writeTask_def Set_add_def Set_delete_def saveQueue_def
        calculateRetryDelay_def defaultConcurrencyConfig_def taskSpec_def)
  have s2: "map (\<lambda>t. (task_id t, retryCount t, maxRetries t)) (queue failedTwice)
     = [(''dashboard_1000_refszl'', 2, 1)]"
    and s2': "failed failedTwice = []" "recentErrors (store failedTwice) = None"
    by (simp_all add: failedTwice_def s1 s1' executeTask_def executeTask_begin_def
        executeTask_end_def alwaysFailing_def Let_def writeTask_def Set_add_def Set_delete_def
        saveQueue_def calculateRetryDelay_def defaultConcurrencyConfig_def taskSpec_def)
  from s1 s1' s2 s2' show ?thesis by simp
qed

subsection \<open>Queued and in flight (C6)\<close>




section \<open>Properties of the incremental sync\<close>

subsection \<open>Auxiliary facts\<close>

lemma Map_get_Map_set: "Map_get (Map_set k v m) k = Some v"
  by (induction m) (auto simp: Map_get_def)

lemma Map_get_Map_set_other: "k' \<noteq> k \<Longrightarrow> Map_get (Map_set k v m) k' = Map_get m k'"
  by (induction m) (auto simp: Map_get_def)

lemma length_Map_set_present: "Map_get m k = Some e \<Longrightarrow> length (Map_set k v m) = length m"
  by (induction m) (auto simp: Map_get_def split: if_splits)

lemma updateCacheEntry_present:
  assumes "Map_get (cache st) u = Some e"
    and "Map_size (cache st) \<le> maxCacheEntries (sync_config st)"
  shows "updateCacheEntry u e' st
           = st\<lparr>cache := Map_set u e' (cache st),
                 storedCache := Some (map snd (Map_set u e' (cache st)))\<rparr>"
  using assms length_Map_set_present [OF assms(1), of e']
  by (simp add: updateCacheEntry_def Let_def Map_size_def saveCache_def)

text \<open>What \<open>shouldRefreshUrl\<close> computes: both age tests start from \<open>lastUpdated\<close>.\<close>

lemma shouldRefreshUrl_iff:
  "shouldRefreshUrl cfg now u cacheEntry forceRefresh \<longleftrightarrow>
     forceRefresh \<or> cacheEntry = None
     \<or> (\<exists>e. cacheEntry = Some e
            \<and> (now - lastUpdated e > maxCacheAge cfg
                 \<or> now - lastUpdated e > forceRefreshInterval cfg))"
  by (cases cacheEntry) (auto simp: shouldRefreshUrl_def Let_def)

lemma shouldRefreshUrl_ceiling:
  "now - lastUpdated e > forceRefreshInterval cfg
     \<Longrightarrow> shouldRefreshUrl cfg now u (Some e) forceRefresh"
  by (simp add: shouldRefreshUrl_iff)

subsection \<open>Freshness (C4)\<close>

text \<open>
  C4, evaluated where the code departs from it. The dashboard entry was last changed
  at time 0 and last checked at time 90000000; one millisecond after that check, with
  the default configuration (a maximal age of 24 hours, a forced refresh after 7 days)
  and no force flag, \<open>shouldRefreshUrl\<close> answers true, although none of the four
  conditions of the claim holds: the time since the last check is 1 ms, and the time
  since the last change is 25 hours, below the forced refresh interval.
\<close>

theorem shouldRefreshUrl_ignores_lastChecked:
  "shouldRefreshUrl defaultSyncConfig 90000001 ''https://c.edu/dashboard''
     (Some dashboardEntry) False
   \<and> \<not> (False \<or> Some dashboardEntry = None
          \<or> 90000001 - lastChecked dashboardEntry > maxCacheAge defaultSyncConfig
          \<or> 90000001 - lastUpdated dashboardEntry > forceRefreshInterval defaultSyncConfig)"
  by (simp add: shouldRefreshUrl_def dashboardEntry_def defaultSyncConfig_def Let_def)

subsection \<open>Not modified (C5)\<close>

text \<open>
  C5 (as amended). When a url has a cache entry, \<open>syncUrl\<close> decides to refresh it, and
  the conditional fetch is answered with status 304, then \<open>syncUrl\<close> returns
  \<open>changed = false\<close> and \<open>cached = true\<close>, with the fingerprint and the validators of
  the entry; the entry afterwards is the old one with \<open>lastChecked\<close> set to the clock
  and \<open>hitCount\<close> one higher, so its fingerprint and validators are unchanged; and no
  change signal is appended. (The cache is within its capacity, so nothing is evicted.)
\<close>

theorem syncUrl_not_modified:
  assumes entry: "getCacheEntry st u = Some e"
    and refresh: "shouldRefreshUrl (sync_config st) (refreshNow env) u (Some e) forceRefresh"
    and resp: "fetch env u (conditionalHeaders (sync_config st) (Some e))
                 = Response 304 txt et lm body"
    and room: "Map_size (cache st) \<le> maxCacheEntries (sync_config st)"
  shows "changed (snd (syncUrl env u forceRefresh st)) = False
       \<and> cached (snd (syncUrl env u forceRefresh st)) = True
       \<and> sr_contentHash (snd (syncUrl env u forceRefresh st)) = contentHash e
       \<and> sr_etag (snd (syncUrl env u forceRefresh st)) = etag e
       \<and> sr_lastModified (snd (syncUrl env u forceRefresh st)) = lastModified e
       \<and> getCacheEntry (fst (syncUrl env u forceRefresh st)) u
           = Some (e\<lparr>lastChecked := touchTime env, hitCount := hitCount e + 1\<rparr>)
       \<and> changeSignals (fst (syncUrl env u forceRefresh st)) = changeSignals st"
proof -
  let ?e1 = "e\<lparr>lastChecked := touchTime env, hitCount := hitCount e + 1\<rparr>"
  have fetched: "conditionalFetch (sync_config st) env u (Some e)
      = Inr \<lparr>content = [], fr_etag = etag e, fr_lastModified = lastModified e,
             notModified = True\<rparr>"
    using resp by (simp add: conditionalFetch_def)
  have upd: "updateCacheEntry u ?e1 st
      = st\<lparr>cache := Map_set u ?e1 (cache st),
            storedCache := Some (map snd (Map_set u ?e1 (cache st)))\<rparr>"
    using entry room by (intro updateCacheEntry_present) (simp_all add: getCacheEntry_def)
  have tried: "syncUrl_try env u forceRefresh st
      = (updateCacheEntry u ?e1 st,
         Inr \<lparr>sr_url = u, changed = False, cached = True, sr_etag = etag ?e1,
              sr_lastModified = lastModified ?e1, sr_contentHash = contentHash ?e1,
              timing = \<lparr>cacheCheck = cacheEnd env - cacheStart env,
                         download = downloadEnd env - downloadStart env, processing = 0,
                         total = endTime env - startTime env\<rparr>\<rparr>)"
    using entry refresh fetched by (simp add: syncUrl_try_def Let_def)
  show ?thesis
    by (simp add: syncUrl_def tried upd getCacheEntry_def Map_get_Map_set)
qed

theorem syncUrl_not_modified_witness:
  "getCacheEntry dashboardCached ''https://c.edu/dashboard'' = Some dashboardEntry
   \<and> shouldRefreshUrl defaultSyncConfig 90000001 ''https://c.edu/dashboard''
        (Some dashboardEntry) False
   \<and> cached (snd (syncUrl (answering (Response 304 ''Not Modified'' None None None) 90000001)
                   ''https://c.edu/dashboard'' False dashboardCached))
   \<and> map_option lastChecked
        (getCacheEntry
           (fst (syncUrl (answering (Response 304 ''Not Modified'' None None None) 90000001)
                   ''https://c.edu/dashboard'' False dashboardCached))
           ''https://c.edu/dashboard'') = Some 90000001"
proof -
  let ?env = "answering (Response 304 ''Not Modified'' None None None) 90000001"
  have entry: "getCacheEntry dashboardCached ''https://c.edu/dashboard'' = Some dashboardEntry"
    by (simp add: getCacheEntry_def Map_get_def dashboardCached_def)
  have cfg: "sync_config dashboardCached = defaultSyncConfig"
    and clock: "refreshNow ?env = 90000001" "touchTime ?env = 90000001"
    by (simp_all add: dashboardCached_def answering_def)
  have refresh: "shouldRefreshUrl (sync_config dashboardCached) (refreshNow ?env)
      ''https://c.edu/dashboard'' (Some dashboardEntry) False"
    by (simp add: cfg clock shouldRefreshUrl_def dashboardEntry_def defaultSyncConfig_def Let_def)
  have resp: "fetch ?env ''https://c.edu/dashboard''
      (conditionalHeaders (sync_config dashboardCached) (Some dashboardEntry))
      = Response 304 ''Not Modified'' None None None"
    by (simp add: answering_def)
  have room: "Map_size (cache dashboardCached) \<le> maxCacheEntries (sync_config dashboardCached)"
    by (simp add: dashboardCached_def Map_size_def defaultSyncConfig_def)
  from syncUrl_not_modified [OF entry refresh resp room] entry refresh
  show ?thesis by (simp add: cfg clock)
qed

text \<open>
  C5 as stated fails: on the "not modified" answer the result says \<open>cached = true\<close>,
  not false.
\<close>

theorem syncUrl_not_modified_says_cached:
  "\<not> (cached (snd (syncUrl (answering (Response 304 ''Not Modified'' None None None) 90000001)
                      ''https://c.edu/dashboard'' False dashboardCached)) = False)"
proof -
  let ?env = "answering (Response 304 ''Not Modified'' None None None) 90000001"
  have "syncUrl_try ?env ''https://c.edu/dashboard'' False dashboardCached
      = (updateCacheEntry ''https://c.edu/dashboard''
           (dashboardEntry\<lparr>lastChecked := 90000001, hitCount := hitCount dashboardEntry + 1\<rparr>)
           dashboardCached,
         Inr \<lparr>sr_url = ''https://c.edu/dashboard'', changed = False, cached = True,
              sr_etag = etag dashboardEntry, sr_lastModified = lastModified dashboardEntry,
              sr_contentHash = contentHash dashboardEntry,
              timing = \<lparr>cacheCheck = 0, download = 0, processing = 0, total = 0\<rparr>\<rparr>)"
    by (simp add: syncUrl_try_def Let_def getCacheEntry_def Map_get_def dashboardCached_def
        shouldRefreshUrl_def defaultSyncConfig_def answering_def conditionalFetch_def)
       (simp add: dashboardEntry_def)
  then show ?thesis by (simp add: syncUrl_def)
qed

subsection \<open>Errors of the fetch (C10)\<close>

text \<open>
  C10. \<open>syncUrl\<close> always returns a result. When the sync reaches the network (a refresh
  is due) and the conditional fetch throws (the fetch is rejected, the status is
  neither 304 nor 2xx, or reading the body fails), the result has \<open>changed = false\<close>,
  \<open>cached = false\<close> and an empty fingerprint, and the state is as before: the cache
  entries, stored and in memory, and the change signals.
\<close>

theorem syncUrl_fetch_error:
  assumes refresh: "shouldRefreshUrl (sync_config st) (refreshNow env) u (getCacheEntry st u)
                      forceRefresh"
    and thrown: "conditionalFetch (sync_config st) env u (getCacheEntry st u) = Inl err"
  shows "fst (syncUrl env u forceRefresh st) = st
       \<and> changed (snd (syncUrl env u forceRefresh st)) = False
       \<and> cached (snd (syncUrl env u forceRefresh st)) = False
       \<and> sr_contentHash (snd (syncUrl env u forceRefresh st)) = []"
proof -
  have "syncUrl_try env u forceRefresh st = (st, Inl err)"
    using refresh thrown by (simp add: syncUrl_try_def Let_def split: option.splits bool.splits)
  then show ?thesis
    by (simp add: syncUrl_def errorResult_def)
qed

theorem syncUrl_fetch_error_witness:
  "conditionalFetch defaultSyncConfig
     (answering (Response 500 ''Internal Server Error'' None None (Some ''oops'')) 90000001)
     ''https://c.edu/dashboard'' (Some dashboardEntry)
     = Inl (HttpFailure 500 ''Internal Server Error'')
   \<and> conditionalFetch defaultSyncConfig (answering (FetchRejected ''Failed to fetch'') 90000001)
        ''https://c.edu/dashboard'' (Some dashboardEntry)
     = Inl (NetworkFailure ''Failed to fetch'')
   \<and> fst (syncUrl
        (answering (Response 500 ''Internal Server Error'' None None (Some ''oops'')) 90000001)
        ''https://c.edu/dashboard'' False dashboardCached) = dashboardCached
   \<and> sr_contentHash (snd (syncUrl
        (answering (Response 500 ''Internal Server Error'' None None (Some ''oops'')) 90000001)
        ''https://c.edu/dashboard'' False dashboardCached)) = []"
proof -
  let ?env = "answering (Response 500 ''Internal Server Error'' None None (Some ''oops'')) 90000001"
  have entry: "getCacheEntry dashboardCached ''https://c.edu/dashboard'' = Some dashboardEntry"
    by (simp add: getCacheEntry_def Map_get_def dashboardCached_def)
  have cfg: "sync_config dashboardCached = defaultSyncConfig"
    by (simp add: dashboardCached_def)
  have refresh: "shouldRefreshUrl (sync_config dashboardCached) (refreshNow ?env)
      ''https://c.edu/dashboard'' (getCacheEntry dashboardCached ''https://c.edu/dashboard'') False"
    by (simp add: entry cfg answering_def shouldRefreshUrl_def dashboardEntry_def
        defaultSyncConfig_def Let_def)
  have thrown: "conditionalFetch (sync_config dashboardCached) ?env ''https://c.edu/dashboard''
      (getCacheEntry dashboardCached ''https://c.edu/dashboard'')
      = Inl (HttpFailure 500 ''Internal Server Error'')"
    by (simp add: entry cfg conditionalFetch_def answering_def)
  have rejected: "conditionalFetch defaultSyncConfig
      (answering (FetchRejected ''Failed to fetch'') 90000001)
      ''https://c.edu/dashboard'' (Some dashboardEntry) = Inl (NetworkFailure ''Failed to fetch'')"
    by (simp add: conditionalFetch_def answering_def)
  from syncUrl_fetch_error [OF refresh thrown] thrown rejected
  show ?thesis by (simp add: entry cfg)
qed

subsection \<open>Normalisation: timestamps and digit runs\<close>
















text \<open>The same for the digit runs: a run does not go on from \<open>a\<close> into \<open>b\<close>.\<close>

definition noRun :: "string \<Rightarrow> string \<Rightarrow> bool" where
  "noRun a b = (a = [] \<or> b = [] \<or> \<not> isDigit (last a) \<or> \<not> isDigit (hd b))"

lemma takeWhile_all: "list_all P xs \<Longrightarrow> ys = [] \<or> \<not> P (hd ys) \<Longrightarrow> takeWhile P (xs @ ys) = xs"
  by (cases ys) (auto simp: list_all_iff takeWhile_tail)

lemma dropWhile_all: "list_all P xs \<Longrightarrow> ys = [] \<or> \<not> P (hd ys) \<Longrightarrow> dropWhile P (xs @ ys) = ys"
  by (cases ys) (auto simp: list_all_iff dropWhile_append3)

lemma replaceLongDigits_digit:
  "isDigit c \<Longrightarrow>
     replaceLongDigits (c # cs)
       = (if 12 \<le> length (takeWhile isDigit cs) then ''TIMESTAMP'' else c # takeWhile isDigit cs)
         @ replaceLongDigits (dropWhile isDigit cs)"
  by simp

lemma replaceLongDigits_append:
  "noRun a b \<Longrightarrow> replaceLongDigits (a @ b) = replaceLongDigits a @ replaceLongDigits b"
proof (induction a rule: length_induct)
  case (1 a)
  show ?case
  proof (cases a)
    case Nil
    then show ?thesis by simp
  next
    case (Cons c cs)
    show ?thesis
    proof (cases "isDigit c")
      case False
      have "noRun cs b"
        using "1.prems" Cons by (auto simp: noRun_def)
      moreover have "length cs < length a"
        using Cons by simp
      ultimately have "replaceLongDigits (cs @ b) = replaceLongDigits cs @ replaceLongDigits b"
        using "1.IH" by blast
      then show ?thesis
        using False Cons by simp
    next
      case True
      show ?thesis
      proof (cases "list_all isDigit cs")
        case all: True
        then have alla: "list_all isDigit a"
          using True Cons by simp
        have "isDigit (last a)"
          using alla Cons by (metis last_in_set list.distinct(1) list_all_iff)
        then have b: "b = [] \<or> \<not> isDigit (hd b)"
          using "1.prems" Cons by (auto simp: noRun_def)
        have t: "takeWhile isDigit (cs @ b) = cs" "takeWhile isDigit cs = cs"
          using takeWhile_all [OF all b] all by (simp_all add: list_all_iff)
        have d: "dropWhile isDigit (cs @ b) = b" "dropWhile isDigit cs = []"
          using dropWhile_all [OF all b] all by (simp_all add: list_all_iff)
        show ?thesis
          unfolding Cons append_Cons replaceLongDigits_digit [OF True] t d
          by simp
      next
        case some: False
        then obtain x where x: "x \<in> set cs" "\<not> isDigit x"
          by (auto simp: list_all_iff)
        then have t: "takeWhile isDigit (cs @ b) = takeWhile isDigit cs"
          and d: "dropWhile isDigit (cs @ b) = dropWhile isDigit cs @ b"
          by simp_all
        have ne: "dropWhile isDigit cs \<noteq> []"
          using x by auto
        then have "last (dropWhile isDigit cs) = last a"
          using Cons by (metis last_ConsR last_appendR takeWhile_dropWhile_id dropWhile.simps(1))
        then have "noRun (dropWhile isDigit cs) b"
          using "1.prems" Cons ne by (auto simp: noRun_def)
        moreover have "length (dropWhile isDigit cs) < length a"
          using Cons by (simp add: length_dropWhile_le less_Suc_eq_le)
        ultimately have "replaceLongDigits (dropWhile isDigit cs @ b)
            = replaceLongDigits (dropWhile isDigit cs) @ replaceLongDigits b"
          using "1.IH" by blast
        then show ?thesis
          unfolding Cons append_Cons replaceLongDigits_digit [OF True] t d
          by simp
      qed
    qed
  qed
qed



lemma replaceLongDigits_hd:
  "\<not> isDigit c \<Longrightarrow> replaceLongDigits (c # cs) = c # replaceLongDigits cs"
  by simp

lemma replaceLongDigits_last:
  assumes "a \<noteq> []" and "\<not> isDigit (last a)"
  shows "replaceLongDigits a \<noteq> [] \<and> last (replaceLongDigits a) = last a"
proof -
  have a: "a = butlast a @ [last a]"
    using assms(1) by simp
  have "noRun (butlast a) [last a]"
    using assms(2) by (simp add: noRun_def)
  from replaceLongDigits_append [OF this]
  have "replaceLongDigits a = replaceLongDigits (butlast a) @ replaceLongDigits [last a]"
    using a by simp
  then show ?thesis
    using assms(2) by simp
qed

subsection \<open>Normalisation: session tokens\<close>












subsection \<open>Normalisation: the volatile fields\<close>







subsection \<open>Fingerprints and change signals (C7)\<close>















text \<open>
  The other placeholders at work: a CSRF token, an authenticity token, and an \<open>id\<close>
  attribute (its value in double quotes) that holds ten digits in a row.
\<close>

lemma normalizeContent_examples:
  "normalizeContent ''a  csrf_token=abc b'' = ''a CSRF_TOKEN b''"
  "normalizeContent ''Authenticity-Token:9f8e&x=1 '' = ''AUTH_TOKEN&x=1''"
  "normalizeContent (''<p id='' @ [CHR 0x22] @ ''item_1234567890'' @ [CHR 0x22] @ ''>'')
     = ''<p id='' @ [CHR 0x22] @ ''DYNAMIC_ID'' @ [CHR 0x22] @ ''>''"
  by code_simp+

section \<open>Properties of the session manager\<close>

subsection \<open>Auxiliary facts\<close>








lemma scheduleInitialTasks_session:
  "currentSession s \<noteq> None \<Longrightarrow> currentSession (fst (scheduleInitialTasks env s)) \<noteq> None"
  by (auto simp: scheduleInitialTasks_def Let_def countScheduled_def
      split: option.splits list.splits)

subsection \<open>A single running session (C9)\<close>







end
